theory Spec2Isabelle
  imports Complex_Main "HOL-Library.AList" "HOL-Library.Char_ord" "HOL-Library.List_Lexorder"
begin

section \<open>The platform: numbers, dates and strings of ECMAScript\<close>

text \<open>
  The dashboard is TypeScript running in a browser. Its own code is short; what it
  computes rests on the arithmetic of JavaScript numbers and on the \<^verbatim>\<open>Date\<close>
  built-in. This section models the part of both that the code calls, with the names of
  the standard's abstract operations.
\<close>

subsection \<open>Numbers\<close>

text \<open>
  A JavaScript number is an IEEE 754 double: a finite value, kept here as the rational
  it denotes, one of the two infinities, or NaN. Negative zero is not told apart from
  zero: none of the operations modelled here distinguishes them.
\<close>

datatype number = Fin rat | PInf | NInf | NaN

text \<open>
  Rounding a rational to the nearest double, ties to the even significand.
  \<open>binary_digits n\<close> is the length of \<open>n\<close> in binary, \<open>pow2 k\<close> is
  \<open>2\<close> to the \<open>k\<close>, and \<open>binade a\<close> is the exponent \<open>e\<close> for which
  \<open>a\<close> lies from \<open>pow2 e\<close> up to, but not at, \<open>pow2 (e + 1)\<close>. A double has
  53 significant bits, so the spacing of the doubles near \<open>a\<close> is \<open>2\<close> to the
  \<open>e - 52\<close>, and never less than \<open>2\<close> to the \<open>-1074\<close> (the subnormal
  range). A result of magnitude \<open>2\<close> to the \<open>1024\<close> or more is an infinity.
\<close>

function binary_digits :: "int \<Rightarrow> int" where
  "binary_digits n = (if n \<le> 0 then 0 else binary_digits (n div 2) + 1)"
  by pat_completeness auto
termination
  by (relation "measure nat") auto

function pow2 :: "int \<Rightarrow> rat" where
  "pow2 k =
     (if k = 0 then 1
      else if k < 0 then 1 / pow2 (- k)
      else (let h = pow2 (k div 2) in if even k then h * h else 2 * h * h))"
  by pat_completeness auto
termination
  by (relation "measure (\<lambda>k. if k < 0 then 2 * nat (- k) + 1 else 2 * nat k)") auto

declare binary_digits.simps [simp del] pow2.simps [simp del]

definition binade :: "rat \<Rightarrow> int" where
  "binade a =
     (case quotient_of a of
        (p, q) \<Rightarrow> (let e = binary_digits p - binary_digits q
                   in if pow2 e \<le> a then e else e - 1))"

definition round_half_even :: "rat \<Rightarrow> int" where
  "round_half_even m =
     (let f = \<lfloor>m\<rfloor>; d = m - of_int f
      in if d < 1 / 2 then f else if 1 / 2 < d then f + 1
         else if even f then f else f + 1)"

definition to_double :: "rat \<Rightarrow> number" where
  "to_double x =
     (if x = 0 then Fin 0
      else
        (let a = \<bar>x\<bar>;
             k = max (binade a - 52) (- 1074);
             r = of_int (round_half_even (a / pow2 k)) * pow2 k
         in if pow2 1024 \<le> r then (if 0 < x then PInf else NInf)
            else Fin (if 0 < x then r else - r)))"

text \<open>
  The operators \<^verbatim>\<open>+\<close>, \<^verbatim>\<open>-\<close>, \<^verbatim>\<open>*\<close> and \<^verbatim>\<open>>\<close> on numbers: the exact
  result, rounded.
\<close>

definition js_add :: "number \<Rightarrow> number \<Rightarrow> number" where
  "js_add a b =
     (case (a, b) of
        (Fin x, Fin y) \<Rightarrow> to_double (x + y)
      | (NaN, _) \<Rightarrow> NaN
      | (_, NaN) \<Rightarrow> NaN
      | (PInf, NInf) \<Rightarrow> NaN
      | (NInf, PInf) \<Rightarrow> NaN
      | (PInf, _) \<Rightarrow> PInf
      | (_, PInf) \<Rightarrow> PInf
      | (NInf, _) \<Rightarrow> NInf
      | (_, NInf) \<Rightarrow> NInf)"

definition js_neg :: "number \<Rightarrow> number" where
  "js_neg a = (case a of Fin x \<Rightarrow> Fin (- x) | PInf \<Rightarrow> NInf | NInf \<Rightarrow> PInf | NaN \<Rightarrow> NaN)"

definition js_sub :: "number \<Rightarrow> number \<Rightarrow> number" where
  "js_sub a b = js_add a (js_neg b)"

definition sign_of :: "number \<Rightarrow> int" where
  "sign_of a =
     (case a of
        Fin x \<Rightarrow> (if 0 < x then 1 else if x < 0 then - 1 else 0)
      | PInf \<Rightarrow> 1
      | NInf \<Rightarrow> - 1
      | NaN \<Rightarrow> 0)"

definition js_mul :: "number \<Rightarrow> number \<Rightarrow> number" where
  "js_mul a b =
     (case (a, b) of
        (Fin x, Fin y) \<Rightarrow> to_double (x * y)
      | (NaN, _) \<Rightarrow> NaN
      | (_, NaN) \<Rightarrow> NaN
      | _ \<Rightarrow> (let s = sign_of a * sign_of b
              in if s = 0 then NaN else if 0 < s then PInf else NInf))"

definition js_gt :: "number \<Rightarrow> number \<Rightarrow> bool" where
  "js_gt a b =
     (case (a, b) of
        (Fin x, Fin y) \<Rightarrow> y < x
      | (NaN, _) \<Rightarrow> False
      | (_, NaN) \<Rightarrow> False
      | (PInf, PInf) \<Rightarrow> False
      | (PInf, _) \<Rightarrow> True
      | (NInf, _) \<Rightarrow> False
      | (_, NInf) \<Rightarrow> True
      | (_, PInf) \<Rightarrow> False)"

text \<open>\<^verbatim>\<open>x || 0\<close> on a number: 0 and NaN are the numbers that count as false.\<close>

definition or0 :: "number \<Rightarrow> number" where
  "or0 x = (if x = Fin 0 \<or> x = NaN then Fin 0 else x)"

text \<open>\<^verbatim>\<open>Math.round\<close>: the nearest integer, a tie going up.\<close>

definition Math_round :: "number \<Rightarrow> number" where
  "Math_round a = (case a of Fin x \<Rightarrow> Fin (of_int \<lfloor>x + 1 / 2\<rfloor>) | _ \<Rightarrow> a)"

subsection \<open>Dates\<close>

text \<open>
  A time value is an \<^typ>\<open>int\<close> of milliseconds since 1970-01-01T00:00Z; an invalid
  date (the time value NaN) is \<^term>\<open>None\<close>.
\<close>

definition msPerDay :: int where
  "msPerDay = 86400000"

definition Day :: "int \<Rightarrow> int" where
  "Day t = t div msPerDay"

definition TimeWithinDay :: "int \<Rightarrow> int" where
  "TimeWithinDay t = t mod msPerDay"

definition DaysInYear :: "int \<Rightarrow> int" where
  "DaysInYear y = (if y mod 4 \<noteq> 0 then 365 else if y mod 100 \<noteq> 0 then 366
                   else if y mod 400 \<noteq> 0 then 365 else 366)"

definition DayFromYear :: "int \<Rightarrow> int" where
  "DayFromYear y =
     365 * (y - 1970) + (y - 1969) div 4 - (y - 1901) div 100 + (y - 1601) div 400"

text \<open>
  The standard defines the year of a day as the largest \<open>y\<close> with
  \<open>DayFromYear y \<le> day\<close>. The executable form below guesses the year from the mean
  length of a Gregorian year and corrects the guess by at most one; lemma
  \<open>YearFromDay_bounds\<close> shows that it meets the standard's definition.
\<close>

definition YearFromDay :: "int \<Rightarrow> int" where
  "YearFromDay z =
     (let y = 1970 + (400 * z) div 146097
      in if z < DayFromYear y then y - 1
         else if DayFromYear (y + 1) \<le> z then y + 1
         else y)"

definition YearFromTime :: "int \<Rightarrow> int" where
  "YearFromTime t = YearFromDay (Day t)"

definition InLeapYear :: "int \<Rightarrow> int" where
  "InLeapYear y = (if DaysInYear y = 366 then 1 else 0)"

text \<open>The day within the year on which month \<open>m\<close> (0 is January) starts; \<open>l\<close> is 1 in a leap year.\<close>

definition month_start :: "int \<Rightarrow> int \<Rightarrow> int" where
  "month_start l m =
     (if m \<le> 0 then 0 else if m = 1 then 31 else if m = 2 then 59 + l
      else if m = 3 then 90 + l else if m = 4 then 120 + l else if m = 5 then 151 + l
      else if m = 6 then 181 + l else if m = 7 then 212 + l else if m = 8 then 243 + l
      else if m = 9 then 273 + l else if m = 10 then 304 + l else if m = 11 then 334 + l
      else 365 + l)"

definition month_of_yearday :: "int \<Rightarrow> int \<Rightarrow> int" where
  "month_of_yearday l d =
     (if d < 31 then 0 else if d < 59 + l then 1 else if d < 90 + l then 2
      else if d < 120 + l then 3 else if d < 151 + l then 4 else if d < 181 + l then 5
      else if d < 212 + l then 6 else if d < 243 + l then 7 else if d < 273 + l then 8
      else if d < 304 + l then 9 else if d < 334 + l then 10 else 11)"

definition DayWithinYear :: "int \<Rightarrow> int" where
  "DayWithinYear t = Day t - DayFromYear (YearFromTime t)"

definition MonthFromTime :: "int \<Rightarrow> int" where
  "MonthFromTime t = month_of_yearday (InLeapYear (YearFromTime t)) (DayWithinYear t)"

definition DateFromTime :: "int \<Rightarrow> int" where
  "DateFromTime t =
     DayWithinYear t - month_start (InLeapYear (YearFromTime t)) (MonthFromTime t) + 1"

definition WeekDay :: "int \<Rightarrow> int" where
  "WeekDay t = (Day t + 4) mod 7"

definition HourFromTime :: "int \<Rightarrow> int" where
  "HourFromTime t = TimeWithinDay t div 3600000"

definition MinFromTime :: "int \<Rightarrow> int" where
  "MinFromTime t = TimeWithinDay t div 60000 mod 60"

definition SecFromTime :: "int \<Rightarrow> int" where
  "SecFromTime t = TimeWithinDay t div 1000 mod 60"

definition msFromTime :: "int \<Rightarrow> int" where
  "msFromTime t = TimeWithinDay t mod 1000"

definition DaysInMonth :: "int \<Rightarrow> int \<Rightarrow> int" where
  "DaysInMonth y m = month_start (InLeapYear y) (m + 1) - month_start (InLeapYear y) m"

definition MakeDay :: "int \<Rightarrow> int \<Rightarrow> int \<Rightarrow> int" where
  "MakeDay y m dt =
     (let ym = y + m div 12; mn = m mod 12
      in DayFromYear ym + month_start (InLeapYear ym) mn + dt - 1)"

definition TimeClip :: "int \<Rightarrow> int option" where
  "TimeClip t = (if \<bar>t\<bar> \<le> 8640000000000000 then Some t else None)"

text \<open>\<^verbatim>\<open>Date.UTC(year, month, date)\<close>: a year from 0 to 99 means 1900 + year.\<close>

definition Date_UTC :: "int \<Rightarrow> int \<Rightarrow> int \<Rightarrow> int option" where
  "Date_UTC y m dt =
     (let yr = (if 0 \<le> y \<and> y \<le> 99 then 1900 + y else y)
      in TimeClip (MakeDay yr m dt * msPerDay))"

text \<open>
  \<^verbatim>\<open>new Date(v)\<close> for a number \<open>v\<close>: the number without its fraction, within the
  range of time values.
\<close>

definition new_Date_number :: "number \<Rightarrow> int option" where
  "new_Date_number v =
     (case v of Fin x \<Rightarrow> TimeClip (if x < 0 then \<lceil>x\<rceil> else \<lfloor>x\<rfloor>) | _ \<Rightarrow> None)"

subsection \<open>Decimal text\<close>

text \<open>The decimal digits are the characters with the codes 48 to 57.\<close>

definition digit_char :: "int \<Rightarrow> char" where
  "digit_char n = char_of (48 + n)"

definition digit_val :: "char \<Rightarrow> int option" where
  "digit_val c = (let v = of_char c - 48 in if 0 \<le> v \<and> v \<le> (9::int) then Some v else None)"

text \<open>A number in exactly \<open>w\<close> decimal digits, as the date formats pad their fields.\<close>

primrec pad :: "nat \<Rightarrow> int \<Rightarrow> string" where
  "pad 0 n = []"
| "pad (Suc w) n = pad w (n div 10) @ [digit_char (n mod 10)]"

fun digits_acc :: "int \<Rightarrow> string \<Rightarrow> int option" where
  "digits_acc a [] = Some a"
| "digits_acc a (c # cs) =
     (case digit_val c of None \<Rightarrow> None | Some v \<Rightarrow> digits_acc (10 * a + v) cs)"

definition digits_val :: "string \<Rightarrow> int option" where
  "digits_val s = (if s = [] then None else digits_acc 0 s)"

text \<open>\<^verbatim>\<open>String(n)\<close> and a template literal's \<^verbatim>\<open>${n}\<close> for an integer \<open>n\<close>.\<close>

function digits_of :: "int \<Rightarrow> string" where
  "digits_of n =
     (if n < 10 then [digit_char n] else digits_of (n div 10) @ [digit_char (n mod 10)])"
  by pat_completeness auto
termination
  by (relation "measure nat") auto

definition string_of_int :: "int \<Rightarrow> string" where
  "string_of_int i = (if i < 0 then CHR ''-'' # digits_of (- i) else digits_of i)"

definition padStart :: "nat \<Rightarrow> char \<Rightarrow> string \<Rightarrow> string" where
  "padStart n c s = replicate (n - length s) c @ s"

text \<open>The first piece of \<^verbatim>\<open>s.split(c)\<close>.\<close>

definition split0 :: "char \<Rightarrow> string \<Rightarrow> string" where
  "split0 c s = takeWhile (\<lambda>x. x \<noteq> c) s"

subsection \<open>Writing and reading ISO dates\<close>

text \<open>
  \<^verbatim>\<open>toISOString\<close> writes \<^verbatim>\<open>YYYY-MM-DDTHH:mm:ss.sssZ\<close> in UTC. A year outside
  0..9999 is written with a sign and six digits (the standard's expanded years).
\<close>

definition year_text :: "int \<Rightarrow> string" where
  "year_text y =
     (if 0 \<le> y \<and> y \<le> 9999 then pad 4 y
      else (if y < 0 then CHR ''-'' else CHR ''+'') # pad 6 \<bar>y\<bar>)"

definition toISOString :: "int \<Rightarrow> string" where
  "toISOString t =
     year_text (YearFromTime t) @ ''-'' @ pad 2 (MonthFromTime t + 1) @ ''-''
       @ pad 2 (DateFromTime t) @ ''T'' @ pad 2 (HourFromTime t) @ '':''
       @ pad 2 (MinFromTime t) @ '':'' @ pad 2 (SecFromTime t) @ ''.''
       @ pad 3 (msFromTime t) @ ''Z''"

text \<open>
  \<^verbatim>\<open>Date.parse\<close> is specified for the standard's own format only. The date-only forms
  \<^verbatim>\<open>YYYY-MM-DD\<close> and \<^verbatim>\<open>+YYYYYY-MM-DD\<close> / \<^verbatim>\<open>-YYYYYY-MM-DD\<close> with legal field
  values denote midnight UTC of that day. Every other string is left to the engine's own
  heuristics, which the model takes as a parameter.
\<close>

definition iso_fields :: "int \<Rightarrow> string \<Rightarrow> int option" where
  "iso_fields y rest =
     (case rest of
        [c1, m1, m2, c2, d1, d2] \<Rightarrow>
          (if c1 = CHR ''-'' \<and> c2 = CHR ''-'' then
             (case digits_val [m1, m2] of
                None \<Rightarrow> None
              | Some m \<Rightarrow>
                  (case digits_val [d1, d2] of
                     None \<Rightarrow> None
                   | Some d \<Rightarrow>
                       if 1 \<le> m \<and> m \<le> 12 \<and> 1 \<le> d \<and> d \<le> DaysInMonth y (m - 1)
                       then TimeClip (MakeDay y (m - 1) d * msPerDay)
                       else None))
           else None)
      | _ \<Rightarrow> None)"

definition iso_date_only :: "string \<Rightarrow> int option" where
  "iso_date_only s =
     (if length s = 10 then
        (case digits_val (take 4 s) of
           None \<Rightarrow> None
         | Some y \<Rightarrow> iso_fields y (drop 4 s))
      else if length s = 13 \<and> hd s = CHR ''+'' then
        (case digits_val (take 6 (tl s)) of
           None \<Rightarrow> None
         | Some y \<Rightarrow> iso_fields y (drop 7 s))
      else if length s = 13 \<and> hd s = CHR ''-'' then
        (case digits_val (take 6 (tl s)) of
           None \<Rightarrow> None
         | Some y \<Rightarrow> if y = 0 then None else iso_fields (- y) (drop 7 s))
      else None)"

text \<open>
  What the engine supplies beyond the standard: its fallback date parser, the conversion
  between strings and numbers (\<^verbatim>\<open>Number(s)\<close>, and \<^verbatim>\<open>String(n)\<close> for a finite
  \<open>n\<close>), and the offset of local time from UTC at a given instant.
\<close>

record engine =
  legacy_parse :: "string \<Rightarrow> int option"
  StringToNumber :: "string \<Rightarrow> number"
  NumberToString :: "rat \<Rightarrow> string"
  LocalTZA :: "int \<Rightarrow> int"

definition Date_parse :: "engine \<Rightarrow> string \<Rightarrow> int option" where
  "Date_parse eng s =
     (case iso_date_only s of
        Some t \<Rightarrow> Some t
      | None \<Rightarrow> (case legacy_parse eng s of None \<Rightarrow> None | Some t \<Rightarrow> TimeClip t))"

definition LocalTime :: "engine \<Rightarrow> int \<Rightarrow> int" where
  "LocalTime eng t = t + LocalTZA eng t"

text \<open>\<^verbatim>\<open>String(n)\<close> for any number.\<close>

definition Number_toString :: "engine \<Rightarrow> number \<Rightarrow> string" where
  "Number_toString eng n =
     (case n of
        Fin x \<Rightarrow> NumberToString eng x
      | PInf \<Rightarrow> ''Infinity''
      | NInf \<Rightarrow> ''-Infinity''
      | NaN \<Rightarrow> ''NaN'')"

section \<open>The data model (src/types.ts)\<close>

text \<open>
  \<^verbatim>\<open>SalesData\<close>. The source names the fields in Chinese; here they carry the
  names the specification uses: \<open>date\<close>, \<open>category\<close>, \<open>productName\<close>,
  \<open>quantity\<close>, \<open>amount\<close>. An \<open>id\<close> is a UUID (form entry) or the text
  \<^verbatim>\<open>excel-<now>-<index>\<close> (import), kept here with its two numbers apart. A
  \<open>timestamp\<close> is a number of milliseconds, or NaN (\<^term>\<open>None\<close>).
\<close>

datatype record_id = Uuid string | ExcelId int nat

record SalesData =
  rec_id :: record_id
  date :: string
  category :: string
  productName :: string
  quantity :: number
  amount :: number
  timestamp :: "int option"

text \<open>\<^verbatim>\<open>Omit<SalesData, 'id' | 'timestamp'>\<close>, what the entry form submits.\<close>

record SalesInput =
  in_date :: string
  in_category :: string
  in_productName :: string
  in_quantity :: number
  in_amount :: number

record DateRange =
  range_start :: string
  range_end :: string

datatype js_error = RangeError | TypeError | SyntaxError | NetworkError

section \<open>The application shell (src/App.tsx)\<close>

definition GOOGLE_SCRIPT_URL :: string where
  "GOOGLE_SCRIPT_URL =
     ''https://script.google.com/macros/s/AKfycbw_ijNH2_T8WOZxhunsH68R8Zuv0a09AyI4rM-JK4k3s1-1lwPSZv_eVybJKX0qyv0uMw/exec''"

text \<open>
  The component's state, with the two places its effects land: the browser console and
  the \<^verbatim>\<open>morandi_sales_data\<close> slot of local storage (absent, unparseable, or a stored
  record list).
\<close>

datatype log_entry = FetchFailed js_error

datatype stored = Absent | Corrupt | Stored "SalesData list"

record AppState =
  data :: "SalesData list"
  isLoading :: bool
  console :: "log_entry list"
  storage :: stored

text \<open>
  What the remote endpoint can answer to the \<^verbatim>\<open>fetch\<close>: the request fails, the body
  is not JSON, the body is the JSON \<^verbatim>\<open>null\<close> (reading \<^verbatim>\<open>result.status\<close> then
  throws), or a JSON value with a \<^verbatim>\<open>status\<close> (\<^term>\<open>None\<close> when it has none or
  it is not a string) and a \<^verbatim>\<open>data\<close> array.
\<close>

datatype reply = Rejected | NotJson | JsonNull | Json "string option" "SalesData list"

definition fetchData :: "reply \<Rightarrow> AppState \<Rightarrow> AppState" where
  "fetchData r st =
     (let st1 = st\<lparr>isLoading := True\<rparr>;
          tried =
            (if GOOGLE_SCRIPT_URL \<noteq> [] then
               (case r of
                  Rejected \<Rightarrow> Inl NetworkError
                | NotJson \<Rightarrow> Inl SyntaxError
                | JsonNull \<Rightarrow> Inl TypeError
                | Json status payload \<Rightarrow>
                    if status = Some ''success'' then Inr (st1\<lparr>data := payload\<rparr>)
                    else Inr st1)
             else
               (case storage st1 of
                  Absent \<Rightarrow> Inr st1
                | Corrupt \<Rightarrow> Inl SyntaxError
                | Stored recs \<Rightarrow> Inr (st1\<lparr>data := recs\<rparr>)));
          st2 =
            (case tried of
               Inl e \<Rightarrow> st1\<lparr>console := console st1 @ [FetchFailed e]\<rparr>
             | Inr s \<Rightarrow> s)
      in st2\<lparr>isLoading := False\<rparr>)"

text \<open>
  The entry \<^verbatim>\<open>handleSaveData\<close> builds (lines 55 to 60): the submitted fields, a fresh
  UUID, and \<^verbatim>\<open>new Date(date).getTime()\<close>.
\<close>

definition handleSaveData_entry :: "engine \<Rightarrow> string \<Rightarrow> SalesInput \<Rightarrow> SalesData" where
  "handleSaveData_entry eng uuid newData =
     \<lparr>rec_id = Uuid uuid, date = in_date newData, category = in_category newData,
      productName = in_productName newData, quantity = in_quantity newData,
      amount = in_amount newData, timestamp = Date_parse eng (in_date newData)\<rparr>"

definition handleImportData :: "SalesData list \<Rightarrow> AppState \<Rightarrow> AppState" where
  "handleImportData importedData st =
     (let updatedData = data st @ importedData;
          st1 = st\<lparr>data := updatedData\<rparr>
      in if GOOGLE_SCRIPT_URL = [] then st1\<lparr>storage := Stored updatedData\<rparr> else st1)"

section \<open>The dashboard (SalesDashboard in src/components/DataInput.tsx)\<close>

subsection \<open>Bucket keys\<close>

text \<open>\<^verbatim>\<open>new Date(n)\<close> for a number \<open>n\<close>.\<close>

definition Date_of_number :: "int option \<Rightarrow> int option" where
  "Date_of_number n = (case n of None \<Rightarrow> None | Some t \<Rightarrow> TimeClip t)"

definition setUTCDate :: "int \<Rightarrow> int \<Rightarrow> int option" where
  "setUTCDate t dt =
     TimeClip (MakeDay (YearFromTime t) (MonthFromTime t) dt * msPerDay + TimeWithinDay t)"

text \<open>
  \<^verbatim>\<open>getWeekString\<close>. The year, month and day are read in local time, moved to UTC
  midnight, shifted to the Thursday of their week, and the week is counted from 1 January
  of the Thursday's year. The two numbers are written as they are. An invalid date makes
  every number NaN.
\<close>

definition getWeekString :: "engine \<Rightarrow> int option \<Rightarrow> string" where
  "getWeekString eng dt =
     (case dt of
        None \<Rightarrow> ''NaN-WNaN''
      | Some t \<Rightarrow>
          (let lt = LocalTime eng t
           in case Date_UTC (YearFromTime lt) (MonthFromTime lt) (DateFromTime lt) of
                None \<Rightarrow> ''NaN-WNaN''
              | Some d0 \<Rightarrow>
                  (let dayNum = (if WeekDay d0 = 0 then 7 else WeekDay d0)
                   in case setUTCDate d0 (DateFromTime d0 + 4 - dayNum) of
                        None \<Rightarrow> ''NaN-WNaN''
                      | Some d \<Rightarrow>
                          (let year = YearFromTime d
                           in case Date_UTC year 0 1 of
                                None \<Rightarrow> string_of_int year @ ''-WNaN''
                              | Some jan1 \<Rightarrow>
                                  (let weekNo =
                                     \<lceil>(rat_of_int (d - jan1) / 86400000 + 1) / 7\<rceil>
                                   in string_of_int year @ ''-W'' @ string_of_int weekNo)))))"

definition getMonthString :: "engine \<Rightarrow> int option \<Rightarrow> string" where
  "getMonthString eng dt =
     (case dt of
        None \<Rightarrow> ''NaN-NaN''
      | Some t \<Rightarrow>
          (let lt = LocalTime eng t
           in string_of_int (YearFromTime lt) @ ''-''
                @ padStart 2 (CHR ''0'') (string_of_int (MonthFromTime lt + 1))))"

subsection \<open>Spreadsheet import\<close>

text \<open>
  \<^verbatim>\<open>XLSX.utils.sheet_to_json\<close> yields one object per data row: the cells of the row
  that are not empty, under their column headers. A cell is a finite number, a string
  or a boolean; a header that is not a key of the object reads as \<^verbatim>\<open>undefined\<close>
  (\<^term>\<open>None\<close>). The five required headers are written in UTF-8.
\<close>

datatype cell = CNum rat | CStr string | CBool bool

type_synonym row = "(string \<times> cell) list"

definition col_date :: string where
  "col_date = [CHR 0xE6, CHR 0x97, CHR 0xA5, CHR 0xE6, CHR 0x9C, CHR 0x9F]"

definition col_category :: string where
  "col_category = [CHR 0xE9, CHR 0xA1, CHR 0x9E, CHR 0xE5, CHR 0x88, CHR 0xA5]"

definition col_product :: string where
  "col_product = [CHR 0xE5, CHR 0x93, CHR 0x81, CHR 0xE5, CHR 0x90, CHR 0x8D]"

definition col_quantity :: string where
  "col_quantity = [CHR 0xE6, CHR 0x95, CHR 0xB8, CHR 0xE9, CHR 0x87, CHR 0x8F]"

definition col_amount :: string where
  "col_amount = [CHR 0xE9, CHR 0x8A, CHR 0xB7, CHR 0xE5, CHR 0x94, CHR 0xAE,
                 CHR 0xE9, CHR 0x87, CHR 0x91, CHR 0xE9, CHR 0xA1, CHR 0x8D]"

definition requiredKeys :: "string list" where
  "requiredKeys = [col_date, col_category, col_product, col_quantity, col_amount]"

text \<open>\<^verbatim>\<open>String(v)\<close>, \<^verbatim>\<open>Number(v)\<close> and \<^verbatim>\<open>new Date(v)\<close> on a cell.\<close>

definition String_of :: "engine \<Rightarrow> cell option \<Rightarrow> string" where
  "String_of eng v =
     (case v of
        None \<Rightarrow> ''undefined''
      | Some (CStr s) \<Rightarrow> s
      | Some (CNum n) \<Rightarrow> NumberToString eng n
      | Some (CBool b) \<Rightarrow> (if b then ''true'' else ''false''))"

definition Number_of :: "engine \<Rightarrow> cell option \<Rightarrow> number" where
  "Number_of eng v =
     (case v of
        None \<Rightarrow> NaN
      | Some (CStr s) \<Rightarrow> StringToNumber eng s
      | Some (CNum n) \<Rightarrow> Fin n
      | Some (CBool b) \<Rightarrow> Fin (if b then 1 else 0))"

definition new_Date :: "engine \<Rightarrow> cell option \<Rightarrow> int option" where
  "new_Date eng v =
     (case v of
        None \<Rightarrow> None
      | Some (CStr s) \<Rightarrow> Date_parse eng s
      | Some (CNum n) \<Rightarrow> new_Date_number (Fin n)
      | Some (CBool b) \<Rightarrow> Some (if b then 1 else 0))"

text \<open>
  The callback of \<^verbatim>\<open>data.map\<close> (lines 340 to 365), in its two steps. First the
  date text and the timestamp: a numeric date cell is a spreadsheet serial day;
  \<^verbatim>\<open>toISOString\<close> throws a RangeError on an invalid date, which only the numeric
  branch can reach. Where the date does not parse the source leaves the raw cell in the
  date field and the timestamp at 0; the filter that follows removes such an item, and
  \<open>String_of\<close> only gives its date field a text until then. Then the record.
\<close>

definition parse_row_date :: "engine \<Rightarrow> row \<Rightarrow> js_error + string \<times> int" where
  "parse_row_date eng r =
     (case map_of r col_date of
        Some (CNum n) \<Rightarrow>
          (case new_Date_number
                  (Math_round
                     (js_mul (js_mul (js_sub (Fin n) (Fin 25569)) (Fin 86400)) (Fin 1000))) of
             None \<Rightarrow> Inl RangeError
           | Some t \<Rightarrow> Inr (split0 (CHR ''T'') (toISOString t), t))
      | dateStr \<Rightarrow>
          (case new_Date eng dateStr of
             None \<Rightarrow> Inr (String_of eng dateStr, 0)
           | Some t \<Rightarrow> Inr (split0 (CHR ''T'') (toISOString t), t)))"

definition formatRow :: "engine \<Rightarrow> int \<Rightarrow> row \<Rightarrow> nat \<Rightarrow> js_error + SalesData" where
  "formatRow eng now r index =
     (case parse_row_date eng r of
        Inl e \<Rightarrow> Inl e
      | Inr (dateStr, ts) \<Rightarrow>
          Inr \<lparr>rec_id = ExcelId now index, date = dateStr,
               category = String_of eng (map_of r col_category),
               productName = String_of eng (map_of r col_product),
               quantity = or0 (Number_of eng (map_of r col_quantity)),
               amount = or0 (Number_of eng (map_of r col_amount)),
               timestamp = Some ts\<rparr>)"

text \<open>
  \<^verbatim>\<open>data.map\<close> with the row index; the first exception ends it. The id of an
  item holds \<^verbatim>\<open>Date.now()\<close>, read anew for every row: \<open>clock i\<close> is its value
  when row \<open>i\<close> is formatted.
\<close>

fun map_rows :: "engine \<Rightarrow> (nat \<Rightarrow> int) \<Rightarrow> nat \<Rightarrow> row list \<Rightarrow> js_error + SalesData list" where
  "map_rows eng clock i [] = Inr []"
| "map_rows eng clock i (r # rs) =
     (case formatRow eng (clock i) r i of
        Inl e \<Rightarrow> Inl e
      | Inr item \<Rightarrow>
          (case map_rows eng clock (Suc i) rs of
             Inl e \<Rightarrow> Inl e
           | Inr items \<Rightarrow> Inr (item # items)))"

definition keep_item :: "SalesData \<Rightarrow> bool" where
  "keep_item item = (case timestamp item of None \<Rightarrow> False | Some ts \<Rightarrow> ts > 0)"

text \<open>
  The messages \<^verbatim>\<open>setErrorMsg\<close> shows. \<open>MissingColumns\<close> stands for the text that
  lists the missing headers joined by a comma.
\<close>

datatype notice = Initialising | LibraryMissing | MissingColumns "string list" | NoValidData | CannotParse

text \<open>
  What the upload handler leaves behind: the message on display (\<^term>\<open>None\<close> is the
  empty message) and the list handed to \<^verbatim>\<open>onImportData\<close>, if it was called.
\<close>

record upload_result =
  errorMsg :: "notice option"
  imported :: "SalesData list option"

text \<open>
  \<^verbatim>\<open>reader.onload\<close> (lines 316 to 377), from the rows that \<^verbatim>\<open>sheet_to_json\<close>
  returned; \<^term>\<open>Inl e\<close> when reading the workbook threw. The handler has cleared the
  message before.
\<close>

definition reader_onload :: "engine \<Rightarrow> (nat \<Rightarrow> int) \<Rightarrow> bool \<Rightarrow> js_error + row list \<Rightarrow> upload_result" where
  "reader_onload eng clock xlsx sheet =
     (if \<not> xlsx then \<lparr>errorMsg = Some LibraryMissing, imported = None\<rparr>
      else case sheet of
        Inl e \<Rightarrow> \<lparr>errorMsg = Some CannotParse, imported = None\<rparr>
      | Inr rows \<Rightarrow>
          (case rows of
             [] \<Rightarrow> \<lparr>errorMsg = None, imported = None\<rparr>
           | firstRow # _ \<Rightarrow>
               (let missingKeys = filter (\<lambda>key. map_of firstRow key = None) requiredKeys
                in if missingKeys \<noteq> [] then
                     \<lparr>errorMsg = Some (MissingColumns missingKeys), imported = None\<rparr>
                   else
                     (case map_rows eng clock 0 rows of
                        Inl e \<Rightarrow> \<lparr>errorMsg = Some CannotParse, imported = None\<rparr>
                      | Inr items \<Rightarrow>
                          (let formattedData = filter keep_item items
                           in if formattedData \<noteq> [] then
                                \<lparr>errorMsg = None, imported = Some formattedData\<rparr>
                              else \<lparr>errorMsg = Some NoValidData, imported = None\<rparr>)))))"

text \<open>\<^verbatim>\<open>handleFileUpload\<close>: \<open>file\<close> is \<^term>\<open>None\<close> when no file was chosen.\<close>

definition handleFileUpload ::
  "engine \<Rightarrow> (nat \<Rightarrow> int) \<Rightarrow> bool \<Rightarrow> bool \<Rightarrow> (js_error + row list) option
     \<Rightarrow> notice option \<Rightarrow> upload_result" where
  "handleFileUpload eng clock isScriptLoaded xlsx file shown =
     (if \<not> isScriptLoaded then \<lparr>errorMsg = Some Initialising, imported = None\<rparr>
      else case file of
        None \<Rightarrow> \<lparr>errorMsg = shown, imported = None\<rparr>
      | Some sheet \<Rightarrow> reader_onload eng clock xlsx sheet)"

text \<open>The dashboard's \<^verbatim>\<open>onImportData\<close> is the application's \<^verbatim>\<open>handleImportData\<close>.\<close>

definition deliver :: "upload_result \<Rightarrow> AppState \<Rightarrow> AppState" where
  "deliver res st = (case imported res of None \<Rightarrow> st | Some recs \<Rightarrow> handleImportData recs st)"

subsection \<open>Aggregation\<close>

text \<open>
  \<^verbatim>\<open>processedData\<close> (lines 394 to 479). The objects the source uses as dictionaries
  (\<^verbatim>\<open>productSales\<close>, \<^verbatim>\<open>trendMap\<close>, \<^verbatim>\<open>categoryMap\<close>, and each trend bucket)
  are association lists in insertion order: \<^const>\<open>map_of\<close> reads a property,
  \<^const>\<open>AList.update\<close> writes it in place or appends it. Two things of JavaScript
  objects are outside the model: a key that names a member of \<^verbatim>\<open>Object.prototype\<close>,
  and the rule that keys which are array indices are enumerated first.

  A trend bucket is one object holding \<^verbatim>\<open>date\<close>, \<^verbatim>\<open>amount\<close>, \<^verbatim>\<open>qty\<close> and, in
  breakdown mode, one property per category; a category may therefore overwrite one of
  the three fixed properties, which the model follows.
\<close>

datatype jsval = Str string | Num number

type_synonym bucket = "(string \<times> jsval) list"

datatype viewMode = day | week | month

record ViewModel =
  filteredRaw :: "SalesData list"
  totalSales :: number
  totalQty :: number
  topProduct :: string
  trendData :: "bucket list"
  categoryData :: "(string \<times> number) list"

text \<open>\<^verbatim>\<open>allCategories\<close> (lines 381 to 392): the distinct categories, sorted.\<close>

definition allCategories :: "SalesData list \<Rightarrow> string list" where
  "allCategories externalData = sort (remdups (map category externalData))"

text \<open>\<^verbatim>\<open>v + x\<close> and \<^verbatim>\<open>v || 0\<close> for a property value \<open>v\<close> and a number \<open>x\<close>.\<close>

definition js_plus :: "engine \<Rightarrow> jsval option \<Rightarrow> number \<Rightarrow> jsval" where
  "js_plus eng v x =
     (case v of
        None \<Rightarrow> Num NaN
      | Some (Num n) \<Rightarrow> Num (js_add n x)
      | Some (Str s) \<Rightarrow> Str (s @ Number_toString eng x))"

definition js_or0 :: "jsval option \<Rightarrow> jsval" where
  "js_or0 v =
     (case v of
        None \<Rightarrow> Num (Fin 0)
      | Some (Num n) \<Rightarrow> Num (or0 n)
      | Some (Str s) \<Rightarrow> (if s = [] then Num (Fin 0) else Str s))"

definition bucket_key :: "engine \<Rightarrow> viewMode \<Rightarrow> SalesData \<Rightarrow> string" where
  "bucket_key eng vm d =
     (case vm of
        day \<Rightarrow> date d
      | week \<Rightarrow> getWeekString eng (Date_of_number (timestamp d))
      | month \<Rightarrow> getMonthString eng (Date_of_number (timestamp d)))"

definition new_bucket :: "string \<Rightarrow> string list \<Rightarrow> bucket" where
  "new_bucket key cats =
     foldl (\<lambda>b c. AList.update c (Num (Fin 0)) b)
       [(''date'', Str key), (''amount'', Num (Fin 0)), (''qty'', Num (Fin 0))] cats"

text \<open>One round of the loop that fills \<^verbatim>\<open>trendMap\<close> (lines 439 to 460).\<close>

definition trend_step ::
  "engine \<Rightarrow> viewMode \<Rightarrow> bool \<Rightarrow> string list \<Rightarrow> (string \<times> bucket) list \<Rightarrow> SalesData
     \<Rightarrow> (string \<times> bucket) list" where
  "trend_step eng vm isGroupByCategory cats trendMap d =
     (let key = bucket_key eng vm d;
          b0 = (case map_of trendMap key of
                  None \<Rightarrow> new_bucket key (if isGroupByCategory then cats else [])
                | Some b \<Rightarrow> b);
          b1 = AList.update ''amount'' (js_plus eng (map_of b0 ''amount'') (amount d)) b0;
          b2 = AList.update ''qty'' (js_plus eng (map_of b1 ''qty'') (quantity d)) b1;
          b3 = (if isGroupByCategory then
                  AList.update (category d)
                    (js_plus eng (Some (js_or0 (map_of b2 (category d)))) (amount d)) b2
                else b2)
      in AList.update key b3 trendMap)"

text \<open>
  \<^verbatim>\<open>Object.values(trendMap).sort((a, b) => a.date.localeCompare(b.date))\<close>. On the
  keys the code produces from well-formed dates (digits, \<open>-\<close> and \<open>W\<close>)
  \<^verbatim>\<open>localeCompare\<close> is the lexicographic order of the characters. The comparator
  throws a TypeError when \<^verbatim>\<open>a.date\<close> is not a string. The buckets of one run either
  all keep their string or (breakdown mode with a category named \<^verbatim>\<open>date\<close>) all lose
  it, so that any comparison throws; an array of fewer than two buckets is never compared.
\<close>

definition has_date :: "bucket \<Rightarrow> bool" where
  "has_date b = (case map_of b ''date'' of Some (Str s) \<Rightarrow> True | _ \<Rightarrow> False)"

definition date_of :: "bucket \<Rightarrow> string" where
  "date_of b = (case map_of b ''date'' of Some (Str s) \<Rightarrow> s | _ \<Rightarrow> [])"

definition sort_trend :: "bucket list \<Rightarrow> js_error + bucket list" where
  "sort_trend bs =
     (if length bs \<le> 1 then Inr bs
      else if list_all has_date bs then Inr (sort_key date_of bs)
      else Inl TypeError)"

text \<open>\<^verbatim>\<open>m[k] = (m[k] || 0) + x\<close> on a dictionary of numbers.\<close>

definition add_to ::
  "(string \<times> number) list \<Rightarrow> string \<Rightarrow> number \<Rightarrow> (string \<times> number) list" where
  "add_to m k x =
     AList.update k (js_add (case map_of m k of None \<Rightarrow> Fin 0 | Some v \<Rightarrow> or0 v) x) m"

definition top_of :: "(string \<times> number) list \<Rightarrow> string" where
  "top_of productSales =
     fst (foldl (\<lambda>(topProduct, maxSale) (name, sale).
                   if js_gt sale maxSale then (name, sale) else (topProduct, maxSale))
            (''-'', Fin 0) productSales)"

definition in_range :: "int \<Rightarrow> int \<Rightarrow> string \<Rightarrow> SalesData \<Rightarrow> bool" where
  "in_range startTs endTs selectedProduct d =
     (case timestamp d of
        None \<Rightarrow> False
      | Some currentTs \<Rightarrow>
          (let bufferEnd = endTs + 86400000;
               dateMatch = (currentTs \<ge> startTs \<and> currentTs < bufferEnd);
               productMatch = (selectedProduct = ''all'' \<or> productName d = selectedProduct)
           in dateMatch \<and> productMatch))"

text \<open>The result is \<^term>\<open>Inr None\<close> where the source returns \<^verbatim>\<open>null\<close>.\<close>

definition processedData ::
  "engine \<Rightarrow> SalesData list \<Rightarrow> DateRange \<Rightarrow> viewMode \<Rightarrow> string \<Rightarrow> bool
     \<Rightarrow> js_error + ViewModel option" where
  "processedData eng externalData dateRange vm selectedProduct isGroupByCategory =
     (if externalData = [] then Inr None
      else if range_start dateRange = [] \<or> range_end dateRange = [] then Inr None
      else
        case Date_parse eng (range_start dateRange) of
          None \<Rightarrow> Inr None
        | Some startTs \<Rightarrow>
            (case Date_parse eng (range_end dateRange) of
               None \<Rightarrow> Inr None
             | Some endTs \<Rightarrow>
                 (let filtered = filter (in_range startTs endTs selectedProduct) externalData
                  in if filtered = [] then
                       Inr (Some \<lparr>filteredRaw = [], totalSales = Fin 0, totalQty = Fin 0,
                                  topProduct = ''-'', trendData = [], categoryData = []\<rparr>)
                     else
                       (let total_sales =
                              foldl (\<lambda>acc curr. js_add acc (amount curr)) (Fin 0) filtered;
                            total_qty =
                              foldl (\<lambda>acc curr. js_add acc (quantity curr)) (Fin 0) filtered;
                            productSales =
                              foldl (\<lambda>m d. add_to m (productName d) (amount d)) [] filtered;
                            trendMap =
                              foldl (trend_step eng vm isGroupByCategory
                                       (allCategories externalData)) [] filtered;
                            categoryMap =
                              foldl (\<lambda>m d. add_to m (category d) (amount d)) [] filtered
                        in case sort_trend (map snd trendMap) of
                             Inl e \<Rightarrow> Inl e
                           | Inr sorted_trend \<Rightarrow>
                               Inr (Some \<lparr>filteredRaw = filtered, totalSales = total_sales,
                                          totalQty = total_qty,
                                          topProduct = top_of productSales,
                                          trendData = sorted_trend,
                                          categoryData = categoryMap\<rparr>)))))"

section \<open>Notions the properties are stated with\<close>

text \<open>The date part of \<^verbatim>\<open>toISOString\<close>, as the import writes it into a record.\<close>

definition iso_date :: "int \<Rightarrow> string" where
  "iso_date t = split0 (CHR ''T'') (toISOString t)"

text \<open>A text of the shape \<^verbatim>\<open>YYYY-MM-DD\<close>.\<close>

definition is_digit :: "char \<Rightarrow> bool" where
  "is_digit c = (digit_val c \<noteq> None)"

definition is_civil_date :: "string \<Rightarrow> bool" where
  "is_civil_date s =
     (length s = 10 \<and> s ! 4 = CHR ''-'' \<and> s ! 7 = CHR ''-''
      \<and> list_all is_digit (take 4 s @ take 2 (drop 5 s) @ drop 8 s))"

text \<open>A text of the shape \<^verbatim>\<open>+YYYYYY-MM-DD\<close>, the expanded years of the standard.\<close>

definition is_expanded_date :: "string \<Rightarrow> bool" where
  "is_expanded_date s =
     (length s = 13 \<and> s ! 0 = CHR ''+'' \<and> s ! 7 = CHR ''-'' \<and> s ! 10 = CHR ''-''
      \<and> list_all is_digit (take 6 (drop 1 s) @ take 2 (drop 8 s) @ drop 11 s))"

text \<open>The records an upload hands to the application, none when it hands over nothing.\<close>

definition survivors :: "upload_result \<Rightarrow> SalesData list" where
  "survivors res = (case imported res of None \<Rightarrow> [] | Some recs \<Rightarrow> recs)"

text \<open>A row that holds a cell under each of the five required headers.\<close>

definition has_columns :: "row \<Rightarrow> bool" where
  "has_columns r =
     list_all (\<lambda>key. map_of r key \<noteq> None)
       [col_date, col_category, col_product, col_quantity, col_amount]"

text \<open>The specification's coercion: a value that is not a number counts as 0.\<close>

definition coerced :: "number \<Rightarrow> number" where
  "coerced n = (if n = NaN then Fin 0 else n)"

text \<open>
  \<open>date_consistent\<close>: the record's timestamp lies in the UTC day that its date names.
  \<open>date_within\<close>: that day lies in the range from \<open>s\<close> to \<open>e\<close>.
\<close>

definition date_consistent :: "engine \<Rightarrow> SalesData \<Rightarrow> bool" where
  "date_consistent eng d =
     (case Date_parse eng (date d) of
        None \<Rightarrow> False
      | Some t0 \<Rightarrow> (case timestamp d of None \<Rightarrow> False | Some t \<Rightarrow> t0 \<le> t \<and> t < t0 + 86400000))"

definition date_within :: "engine \<Rightarrow> int \<Rightarrow> int \<Rightarrow> SalesData \<Rightarrow> bool" where
  "date_within eng s e d =
     (case Date_parse eng (date d) of None \<Rightarrow> False | Some t0 \<Rightarrow> s \<le> t0 \<and> t0 \<le> e)"

text \<open>
  Concrete inputs: an engine at a fixed offset from UTC that reads no text as a date or
  as a number beyond the standard's date format (it is used on texts that no engine
  reads as one: \<open>not-a-date\<close>, \<open>two\<close>, \<open>n/a\<close>), a spreadsheet row with a given
  date cell, and a record of category A and product X.
\<close>

definition plain_engine :: "int \<Rightarrow> engine" where
  "plain_engine offset =
     \<lparr>legacy_parse = (\<lambda>s. None), StringToNumber = (\<lambda>s. NaN),
      NumberToString = (\<lambda>n. []), LocalTZA = (\<lambda>t. offset)\<rparr>"

definition sample_row :: "cell \<Rightarrow> row" where
  "sample_row d =
     [(col_date, d), (col_category, CStr ''A''), (col_product, CStr ''X''),
      (col_quantity, CNum 2), (col_amount, CNum 100)]"

definition sample_record :: "record_id \<Rightarrow> string \<Rightarrow> int option \<Rightarrow> SalesData" where
  "sample_record i ds ts =
     \<lparr>rec_id = i, date = ds, category = ''A'', productName = ''X'', quantity = Fin 2,
      amount = Fin 100, timestamp = ts\<rparr>"

section \<open>Doubles that hold whole numbers\<close>

text \<open>
  Adding whole numbers as doubles is exact as long as the magnitudes add up to no more
  than \<open>2\<close> to the \<open>53\<close>.
\<close>

lemma pow2_0: "pow2 0 = 1"
  by (subst pow2.simps) simp

lemma pow2_nonneg: "0 \<le> k \<Longrightarrow> pow2 k = 2 ^ nat k"
proof (induction k rule: pow2.induct)
  case (1 k)
  show ?case
  proof (cases "k = 0")
    case True
    then show ?thesis by (simp add: pow2_0)
  next
    case False
    with 1 have pos: "0 < k" by simp
    then have h: "pow2 (k div 2) = 2 ^ nat (k div 2)" using 1 False by simp
    have u: "pow2 k = (if even k then pow2 (k div 2) * pow2 (k div 2)
                       else 2 * pow2 (k div 2) * pow2 (k div 2))"
      using pos by (subst pow2.simps) (simp add: Let_def)
    show ?thesis
    proof (cases "even k")
      case True
      then obtain j where j: "k = 2 * j" by (elim evenE)
      then have "nat k = nat j + nat j" using pos by simp
      then show ?thesis using True j h u by (simp add: power_add)
    next
      case False
      then obtain j where j: "k = 2 * j + 1" by (elim oddE)
      then have "nat k = Suc (nat j + nat j)" using pos by simp
      then show ?thesis using False j h u by (simp add: power_add)
    qed
  qed
qed

lemma pow2_neg: "k < 0 \<Longrightarrow> pow2 k = 1 / 2 ^ nat (- k)"
  by (subst pow2.simps) (simp add: pow2_nonneg)

lemma pow2_pos: "0 < pow2 k"
  by (cases "0 \<le> k") (simp_all add: pow2_nonneg pow2_neg)

lemma binary_digits_step: "0 < n \<Longrightarrow> binary_digits n = binary_digits (n div 2) + 1"
  by (subst binary_digits.simps) simp

lemma binary_digits_nonpos: "n \<le> 0 \<Longrightarrow> binary_digits n = 0"
  by (subst binary_digits.simps) simp

lemma binary_digits_1: "binary_digits 1 = 1"
  by (simp add: binary_digits_step binary_digits_nonpos)

lemma binary_digits_bounds:
  "0 < n \<Longrightarrow> 1 \<le> binary_digits n \<and> 2 ^ nat (binary_digits n - 1) \<le> n \<and> n < 2 ^ nat (binary_digits n)"
proof (induction n rule: binary_digits.induct)
  case (1 n)
  show ?case
  proof (cases "n div 2 = 0")
    case True
    with 1 have "n = 1" by presburger
    then show ?thesis by (simp add: binary_digits_1)
  next
    case False
    with 1 have p: "0 < n div 2" by presburger
    have n: "\<not> n \<le> 0" using 1 by simp
    from 1(1)[OF n p] have ih: "1 \<le> binary_digits (n div 2)"
      "2 ^ nat (binary_digits (n div 2) - 1) \<le> n div 2"
      "n div 2 < 2 ^ nat (binary_digits (n div 2))" by blast+
    have b: "binary_digits n = binary_digits (n div 2) + 1"
      using 1(2) by (rule binary_digits_step)
    define j where "j = nat (binary_digits (n div 2) - 1)"
    have s: "nat (binary_digits (n div 2)) = Suc j"
      "nat (binary_digits (n div 2) + 1) = Suc (Suc j)"
      "nat (binary_digits (n div 2) + 1 - 1) = Suc j"
      using ih(1) by (simp_all add: j_def)
    have lo: "2 * 2 ^ j \<le> n" using ih(2) unfolding j_def by presburger
    have hi: "n < 2 * (2 * 2 ^ j)" using ih(3) unfolding s by simp
    show ?thesis
      unfolding b s using ih(1) lo hi by simp
  qed
qed

lemma round_half_even_int: "round_half_even (of_int m) = m"
  by (simp add: round_half_even_def)

lemma quotient_of_pos_int: "quotient_of (of_int n) = (n, 1)"
  by (simp add: of_int_rat quotient_of_Fract)

lemma binade_int:
  assumes "0 < n"
  shows "binade (of_int n) = binary_digits n - 1"
proof -
  from binary_digits_bounds[OF assms] have b: "1 \<le> binary_digits n"
    "2 ^ nat (binary_digits n - 1) \<le> n" by simp_all
  have "pow2 (binary_digits n - 1) = of_int (2 ^ nat (binary_digits n - 1))"
    using b(1) by (simp add: pow2_nonneg)
  also have "\<dots> \<le> of_int n" using b(2) by (simp only: of_int_le_iff)
  finally show ?thesis
    by (simp add: binade_def quotient_of_pos_int binary_digits_1)
qed

lemma to_double_pos_int:
  assumes "0 < n" "n \<le> 2 ^ 53"
  shows "to_double (of_int n) = Fin (of_int n) \<and> to_double (- of_int n) = Fin (- of_int n)"
proof -
  define e where "e = binary_digits n - 1"
  from binary_digits_bounds[OF assms(1)] have b: "0 \<le> e" "2 ^ nat e \<le> n"
    by (simp_all add: e_def)
  have e53: "e \<le> 53"
  proof (rule ccontr)
    assume "\<not> e \<le> 53"
    then have "(54::nat) \<le> nat e" by simp
    then have "(2::int) ^ 54 \<le> 2 ^ nat e" by (rule power_increasing) simp
    with b(2) assms(2) show False by simp
  qed
  define k where "k = max (e - 52) (- 1074)"
  have k: "k = e - 52" using b(1) by (simp add: k_def)
  have "\<exists>m. (of_int n :: rat) / pow2 k = of_int m"
  proof (cases "e \<le> 52")
    case True
    then have "pow2 k = 1 / 2 ^ nat (52 - e)"
      by (cases "e = 52") (simp_all add: k pow2_neg pow2_0)
    then have "(of_int n :: rat) / pow2 k = of_int (n * 2 ^ nat (52 - e))" by simp
    then show ?thesis by blast
  next
    case False
    with e53 have e: "e = 53" by simp
    then have "(2::int) ^ 53 \<le> n" using b(2) by simp
    with assms(2) have "n = 2 ^ 53" by simp
    moreover have "pow2 k = 2" using e by (simp add: k pow2_nonneg)
    ultimately have "(of_int n :: rat) / pow2 k = of_int (2 ^ 52)" by simp
    then show ?thesis by blast
  qed
  then obtain m where m: "(of_int n :: rat) / pow2 k = of_int m" by blast
  have pk: "pow2 k \<noteq> 0" using pow2_pos[of k] by simp
  have r: "of_int (round_half_even (of_int n / pow2 k)) * pow2 k = (of_int n :: rat)"
    using m pk by (simp add: round_half_even_int) (metis nonzero_divide_eq_eq)
  have "(of_int n :: rat) \<le> of_int (2 ^ 53)" using assms(2) by (simp only: of_int_le_iff)
  also have "\<dots> < 2 ^ 1024" by simp
  finally have lt: "\<not> pow2 1024 \<le> (of_int n :: rat)" by (simp add: pow2_nonneg)
  have bd: "binade (of_int n) = e" using assms(1) by (simp add: binade_int e_def)
  have n0: "(of_int n :: rat) \<noteq> 0" "0 < (of_int n :: rat)" using assms(1) by simp_all
  show ?thesis
    using n0 r lt bd by (simp add: to_double_def Let_def k_def)
qed

lemma to_double_int: "\<bar>n\<bar> \<le> 2 ^ 53 \<Longrightarrow> to_double (of_int n) = Fin (of_int n)"
proof -
  assume a: "\<bar>n\<bar> \<le> 2 ^ 53"
  consider "n = 0" | "0 < n" | "n < 0" by linarith
  then show ?thesis
  proof cases
    case 1
    then show ?thesis by (simp add: to_double_def)
  next
    case 2
    then show ?thesis using a to_double_pos_int[of n] by simp
  next
    case 3
    then show ?thesis using a to_double_pos_int[of "- n"] by simp
  qed
qed

lemma foldl_js_add_int:
  "\<bar>a\<bar> + sum_list (map abs ns) \<le> 2 ^ 53 \<Longrightarrow>
     foldl (\<lambda>acc n. js_add acc (Fin (of_int n))) (Fin (of_int a)) ns
       = Fin (of_int (a + sum_list ns))"
proof (induction ns arbitrary: a)
  case Nil
  then show ?case by simp
next
  case (Cons n ns)
  have s: "0 \<le> sum_list (map abs ns)" by (induction ns) auto
  have "\<bar>a + n\<bar> \<le> 2 ^ 53" using Cons.prems s by simp
  then have "js_add (Fin (of_int a)) (Fin (of_int n)) = Fin (of_int (a + n))"
    using to_double_int[of "a + n"] by (simp add: js_add_def)
  moreover have "\<bar>a + n\<bar> + sum_list (map abs ns) \<le> 2 ^ 53" using Cons.prems by simp
  ultimately show ?case using Cons.IH[of "a + n"] by (simp add: add.assoc)
qed

lemma foldl_map: "foldl (\<lambda>acc c. g acc (f c)) a xs = foldl g a (map f xs)"
  by (induction xs arbitrary: a) simp_all

lemma foldl_js_add_exact:
  assumes "sum_list (map abs ns) \<le> 2 ^ 53"
  shows "foldl js_add (Fin 0) (map (\<lambda>n. Fin (of_int n)) ns) = Fin (of_int (sum_list ns))"
proof -
  have "foldl js_add (Fin 0) (map (\<lambda>n. Fin (of_int n)) ns)
          = foldl (\<lambda>acc n. js_add acc (Fin (of_int n))) (Fin (of_int 0)) ns"
    by (simp add: foldl_map[of js_add "\<lambda>n. Fin (of_int n)"])
  also have "\<dots> = Fin (of_int (0 + sum_list ns))"
    using assms by (intro foldl_js_add_int) simp
  finally show ?thesis by simp
qed

section \<open>Calendar arithmetic is sound\<close>

text \<open>
  The year that \<open>YearFromDay\<close> computes is the year of the standard: the day lies
  between the first day of that year and the first day of the next. With the month table
  this makes year, month and date of a day add up to the day again.
\<close>

lemma div_lo: "0 < (k::int) \<Longrightarrow> k * (x div k) \<le> x"
  using pos_mod_sign[of k x] mult_div_mod_eq[of k x] by linarith

lemma div_hi: "0 < (k::int) \<Longrightarrow> x < k * (x div k) + k"
  using pos_mod_bound[of k x] mult_div_mod_eq[of k x] by linarith

lemma div_step:
  assumes k: "0 < (k::int)"
  shows "(x + 1) div k = x div k + (if (x + 1) mod k = 0 then 1 else 0)"
proof -
  define q where "q = x div k"
  define r where "r = x mod k"
  have x: "x = k * q + r" by (simp add: q_def r_def)
  have r0: "0 \<le> r" and rk: "r < k" using k by (simp_all add: r_def)
  show ?thesis
  proof (cases "r = k - 1")
    case True
    then have e: "x + 1 = k * (q + 1) + 0" using x by (simp add: algebra_simps)
    have "(x + 1) div k = q + 1" using k by (subst e) simp
    moreover have "(x + 1) mod k = 0" by (subst e) simp
    ultimately show ?thesis by (simp add: q_def)
  next
    case False
    then have lt: "r + 1 < k" using rk by simp
    have e: "x + 1 = k * q + (r + 1)" using x by simp
    have "(x + 1) div k = q" using r0 lt by (subst e) simp
    moreover have "(x + 1) mod k = r + 1" using r0 lt by (subst e) simp
    ultimately show ?thesis using r0 by (simp add: q_def)
  qed
qed

lemma DayFromYear_Suc: "DayFromYear (y + 1) = DayFromYear y + DaysInYear y"
proof -
  have m4: "(y - 1968) mod 4 = y mod 4" using mod_mult_self2[of y 4 "-492"] by simp
  have m100: "(y - 1900) mod 100 = y mod 100" using mod_mult_self2[of y 100 "-19"] by simp
  have m400: "(y - 1600) mod 400 = y mod 400" using mod_mult_self2[of y 400 "-4"] by simp
  have a: "(y + 1 - 1969) div 4 = (y - 1969) div 4 + (if y mod 4 = 0 then 1 else 0)"
    using div_step[of 4 "y - 1969"] m4 by (simp add: algebra_simps)
  have b: "(y + 1 - 1901) div 100 = (y - 1901) div 100 + (if y mod 100 = 0 then 1 else 0)"
    using div_step[of 100 "y - 1901"] m100 by (simp add: algebra_simps)
  have c: "(y + 1 - 1601) div 400 = (y - 1601) div 400 + (if y mod 400 = 0 then 1 else 0)"
    using div_step[of 400 "y - 1601"] m400 by (simp add: algebra_simps)
  have d: "y mod 400 = 0 \<Longrightarrow> y mod 100 = 0" using mod_mod_cancel[of 100 400 y] by simp
  have e: "y mod 100 = 0 \<Longrightarrow> y mod 4 = 0" using mod_mod_cancel[of 4 100 y] by simp
  show ?thesis
    unfolding DayFromYear_def DaysInYear_def a b c using d e by auto
qed

lemma DayFromYear_lower: "DayFromYear (1970 + (400 * z) div 146097 - 1) \<le> z"
proof -
  define q where "q = (400 * z) div 146097"
  define a where "a = q div 4"
  define b where "b = (q + 68) div 100"
  define c where "c = (q + 368) div 400"
  have q: "146097 * q \<le> 400 * z" unfolding q_def by (rule div_lo) simp
  have a: "4 * a \<le> q" unfolding a_def by (rule div_lo) simp
  have b: "q + 68 < 100 * b + 100" unfolding b_def by (rule div_hi) simp
  have c: "400 * c \<le> q + 368" unfolding c_def by (rule div_lo) simp
  have "DayFromYear (1970 + q - 1) = 365 * (q - 1) + a - b + c"
    unfolding DayFromYear_def a_def b_def c_def by (simp add: algebra_simps)
  moreover have "365 * (q - 1) + a - b + c \<le> z"
    using q a b c by (simp add: algebra_simps)
  ultimately show ?thesis unfolding q_def by simp
qed

lemma DayFromYear_upper: "z < DayFromYear (1970 + (400 * z) div 146097 + 2)"
proof -
  define q where "q = (400 * z) div 146097"
  define a where "a = (q + 3) div 4"
  define b where "b = (q + 71) div 100"
  define c where "c = (q + 371) div 400"
  have q: "400 * z < 146097 * q + 146097" unfolding q_def by (rule div_hi) simp
  have a: "q + 3 < 4 * a + 4" unfolding a_def by (rule div_hi) simp
  have b: "100 * b \<le> q + 71" unfolding b_def by (rule div_lo) simp
  have c: "q + 371 < 400 * c + 400" unfolding c_def by (rule div_hi) simp
  have "DayFromYear (1970 + q + 2) = 365 * (q + 2) + a - b + c"
    unfolding DayFromYear_def a_def b_def c_def by (simp add: algebra_simps)
  moreover have "z < 365 * (q + 2) + a - b + c"
    using q a b c by (simp add: algebra_simps)
  ultimately show ?thesis unfolding q_def by simp
qed

lemma YearFromDay_bounds:
  "DayFromYear (YearFromDay z) \<le> z \<and> z < DayFromYear (YearFromDay z + 1)"
proof -
  define y where "y = 1970 + (400 * z) div 146097"
  have lo: "DayFromYear (y - 1) \<le> z" using DayFromYear_lower[of z] by (simp add: y_def)
  have hi: "z < DayFromYear (y + 2)" using DayFromYear_upper[of z] by (simp add: y_def)
  have s2: "DayFromYear (y + 1 + 1) = DayFromYear (y + 2)" by (simp add: add.assoc)
  show ?thesis
    unfolding YearFromDay_def y_def[symmetric] Let_def
    using lo hi s2 by auto
qed

lemma DayWithinYear_range:
  "0 \<le> DayWithinYear t \<and> DayWithinYear t < DaysInYear (YearFromTime t)"
  using YearFromDay_bounds[of "Day t"] DayFromYear_Suc[of "YearFromTime t"]
  by (simp add: DayWithinYear_def YearFromTime_def)

lemma InLeapYear_cases: "InLeapYear y = 0 \<and> DaysInYear y = 365 \<or> InLeapYear y = 1 \<and> DaysInYear y = 366"
  by (simp add: InLeapYear_def DaysInYear_def)

lemma month_of_yearday_range:
  "0 \<le> month_of_yearday l d \<and> month_of_yearday l d \<le> 11"
  by (simp add: month_of_yearday_def)

lemma month_start_le:
  assumes "l = 0 \<or> l = 1" "0 \<le> d"
  shows "month_start l (month_of_yearday l d) \<le> d"
  using assms by (auto simp: month_of_yearday_def month_start_def)

lemma month_start_gt:
  assumes "l = 0 \<or> l = 1" "d < 365 + l"
  shows "d < month_start l (month_of_yearday l d + 1)"
  using assms by (auto simp: month_of_yearday_def month_start_def)

lemma MonthFromTime_range: "0 \<le> MonthFromTime t \<and> MonthFromTime t \<le> 11"
  by (simp add: MonthFromTime_def month_of_yearday_range)

lemma DateFromTime_range:
  "1 \<le> DateFromTime t \<and> DateFromTime t \<le> DaysInMonth (YearFromTime t) (MonthFromTime t)"
proof -
  define l where "l = InLeapYear (YearFromTime t)"
  define d where "d = DayWithinYear t"
  have l: "l = 0 \<or> l = 1" using InLeapYear_cases[of "YearFromTime t"] by (auto simp: l_def)
  have d0: "0 \<le> d" and d1: "d < 365 + l"
    using DayWithinYear_range[of t] InLeapYear_cases[of "YearFromTime t"]
    by (auto simp: l_def d_def)
  show ?thesis
    using month_start_le[OF l d0] month_start_gt[OF l d1]
    by (simp add: DateFromTime_def DaysInMonth_def MonthFromTime_def l_def d_def)
qed

lemma MakeDay_civil:
  "MakeDay (YearFromTime t) (MonthFromTime t) (DateFromTime t) = Day t"
proof -
  have m: "MonthFromTime t div 12 = 0" "MonthFromTime t mod 12 = MonthFromTime t"
    using MonthFromTime_range[of t] by simp_all
  show ?thesis
    by (simp add: MakeDay_def m DateFromTime_def DayWithinYear_def)
qed

lemma DayFromYear_mono: "y \<le> y' \<Longrightarrow> DayFromYear y \<le> DayFromYear y'"
proof (induction y' rule: int_ge_induct)
  case base
  then show ?case by simp
next
  case (step i)
  have "365 \<le> DaysInYear i" by (simp add: DaysInYear_def)
  then show ?case using step DayFromYear_Suc[of i] by simp
qed

lemma YearFromTime_lower:
  assumes "DayFromYear y0 \<le> Day t"
  shows "y0 \<le> YearFromTime t"
proof (rule ccontr)
  assume "\<not> y0 \<le> YearFromTime t"
  then have "YearFromTime t + 1 \<le> y0" by simp
  then have "DayFromYear (YearFromTime t + 1) \<le> DayFromYear y0" by (rule DayFromYear_mono)
  then show False
    using YearFromDay_bounds[of "Day t"] assms by (simp add: YearFromTime_def)
qed

lemma YearFromTime_upper:
  assumes "Day t < DayFromYear y1"
  shows "YearFromTime t < y1"
proof (rule ccontr)
  assume "\<not> YearFromTime t < y1"
  then have "y1 \<le> YearFromTime t" by simp
  then have "DayFromYear y1 \<le> DayFromYear (YearFromTime t)" by (rule DayFromYear_mono)
  then show False
    using YearFromDay_bounds[of "Day t"] assms by (simp add: YearFromTime_def)
qed

lemma year_of_modern_time:
  assumes "0 \<le> t" "t < 253402300800000"
  shows "1970 \<le> YearFromTime t \<and> YearFromTime t \<le> 9999"
proof -
  have "0 div 86400000 \<le> t div (86400000::int)" using assms(1) by (intro zdiv_mono1) auto
  then have a: "DayFromYear 1970 \<le> Day t" by (simp add: DayFromYear_def Day_def msPerDay_def)
  have "t div (86400000::int) \<le> 253402300799999 div 86400000"
    using assms(2) by (intro zdiv_mono1) auto
  then have b: "Day t < DayFromYear 10000" by (simp add: DayFromYear_def Day_def msPerDay_def)
  show ?thesis using YearFromTime_lower[OF a] YearFromTime_upper[OF b] by simp
qed

lemma year_of_late_time:
  assumes "253402300800000 \<le> t"
  shows "10000 \<le> YearFromTime t"
proof -
  have "253402300800000 div 86400000 \<le> t div (86400000::int)"
    using assms by (intro zdiv_mono1) auto
  then have "DayFromYear 10000 \<le> Day t" by (simp add: DayFromYear_def Day_def msPerDay_def)
  then show ?thesis by (rule YearFromTime_lower)
qed

section \<open>Digits written are digits read\<close>

text \<open>A number written in \<open>w\<close> digits reads back as itself.\<close>

lemma digit_val_digit_char: "0 \<le> n \<Longrightarrow> n < 10 \<Longrightarrow> digit_val (digit_char n) = Some n"
  by (simp add: digit_char_def digit_val_def)

lemma is_digit_digit_char: "0 \<le> n \<Longrightarrow> n < 10 \<Longrightarrow> is_digit (digit_char n)"
  by (simp add: is_digit_def digit_val_digit_char)

lemma digits_acc_append:
  "digits_acc a (xs @ ys) = (case digits_acc a xs of None \<Rightarrow> None | Some b \<Rightarrow> digits_acc b ys)"
  by (induction xs arbitrary: a) (auto split: option.splits)

lemma digits_acc_pad: "digits_acc a (pad w n) = Some (a * 10 ^ w + n mod 10 ^ w)"
proof (induction w arbitrary: n)
  case 0
  then show ?case by simp
next
  case (Suc w)
  have "n mod (10 * 10 ^ w) = 10 * (n div 10 mod 10 ^ w) + n mod 10"
    by (simp add: zmod_zmult2_eq)
  then show ?case
    by (simp add: digits_acc_append Suc digit_val_digit_char algebra_simps)
qed

lemma length_pad: "length (pad w n) = w"
  by (induction w arbitrary: n) simp_all

lemma pad_digits: "list_all is_digit (pad w n)"
  by (induction w arbitrary: n) (simp_all add: is_digit_digit_char)

lemma pad_nonempty: "0 < w \<Longrightarrow> pad w n \<noteq> []"
  using length_pad[of w n] by auto

lemma digits_val_pad:
  "0 < w \<Longrightarrow> 0 \<le> n \<Longrightarrow> n < 10 ^ w \<Longrightarrow> digits_val (pad w n) = Some n"
  by (simp add: digits_val_def pad_nonempty digits_acc_pad)

lemma not_digit: "\<not> is_digit (CHR ''T'')" "\<not> is_digit (CHR ''-'')" "\<not> is_digit (CHR ''+'')"
  by (simp_all add: is_digit_def digit_val_def)

lemma pad_no_T: "list_all (\<lambda>x. x \<noteq> CHR ''T'') (pad w n)"
  using pad_digits[of w n] not_digit(1) by (auto simp: list_all_iff)

lemma pad2: "pad 2 n = [digit_char (n div 10 mod 10), digit_char (n mod 10)]"
  by (simp add: numeral_2_eq_2)

section \<open>An ISO date written is read back\<close>

text \<open>
  The date part of \<^verbatim>\<open>toISOString\<close> is a text that \<^verbatim>\<open>Date.parse\<close> must
  read, and it reads as the UTC midnight of the same day, for every valid time value.
\<close>

lemma year_text_no_T: "list_all (\<lambda>x. x \<noteq> CHR ''T'') (year_text y)"
  using pad_no_T by (simp add: year_text_def)

lemma year_text_length: "length (year_text y) = (if 0 \<le> y \<and> y \<le> 9999 then 4 else 7)"
  by (simp add: year_text_def length_pad)

lemma iso_date_eq:
  "iso_date t = year_text (YearFromTime t) @ ''-'' @ pad 2 (MonthFromTime t + 1) @ ''-''
                  @ pad 2 (DateFromTime t)"
proof -
  have a: "\<And>xs ys. list_all (\<lambda>x. x \<noteq> CHR ''T'') xs \<Longrightarrow>
             takeWhile (\<lambda>x. x \<noteq> CHR ''T'') (xs @ ys) = xs @ takeWhile (\<lambda>x. x \<noteq> CHR ''T'') ys"
    by (simp add: list_all_iff)
  show ?thesis
    unfolding iso_date_def split0_def toISOString_def
    by (simp add: a year_text_no_T pad_no_T)
qed

lemma iso_fields_written:
  assumes m: "0 \<le> m" "m \<le> 11" and d: "1 \<le> d" "d \<le> DaysInMonth y m"
  shows "iso_fields y (''-'' @ pad 2 (m + 1) @ ''-'' @ pad 2 d)
           = TimeClip (MakeDay y m d * msPerDay)"
proof -
  have d31: "d \<le> 31"
    using d(2) m by (auto simp: DaysInMonth_def month_start_def InLeapYear_def split: if_splits)
  have vm: "digits_val (pad 2 (m + 1)) = Some (m + 1)"
    using m by (intro digits_val_pad) auto
  have vd: "digits_val (pad 2 d) = Some d"
    using d(1) d31 by (intro digits_val_pad) auto
  show ?thesis
    using vm vd m d unfolding iso_fields_def pad2 by simp
qed

lemma iso_date_only_written:
  assumes y: "- 1000000 < y" "y < 1000000" and r: "length rest = 6"
  shows "iso_date_only (year_text y @ rest) = iso_fields y rest"
proof (cases "0 \<le> y \<and> y \<le> 9999")
  case True
  then have "digits_val (pad 4 y) = Some y"
    by (intro digits_val_pad) auto
  then show ?thesis
    using True r by (simp add: iso_date_only_def year_text_def length_pad)
next
  case False
  have v: "digits_val (pad 6 \<bar>y\<bar>) = Some \<bar>y\<bar>"
    using y by (intro digits_val_pad) auto
  show ?thesis
  proof (cases "y < 0")
    case True
    then show ?thesis
      using False r v by (simp add: iso_date_only_def year_text_def length_pad)
  next
    case False
    then show ?thesis
      using \<open>\<not> (0 \<le> y \<and> y \<le> 9999)\<close> r v
      by (simp add: iso_date_only_def year_text_def length_pad)
  qed
qed

lemma Day_bounds:
  assumes "\<bar>t\<bar> \<le> 8640000000000000"
  shows "- 100000000 \<le> Day t \<and> Day t \<le> 100000000"
proof -
  have "(- 8640000000000000) div 86400000 \<le> t div (86400000::int)"
    using assms by (intro zdiv_mono1) auto
  moreover have "t div (86400000::int) \<le> 8640000000000000 div 86400000"
    using assms by (intro zdiv_mono1) auto
  ultimately show ?thesis by (simp add: Day_def msPerDay_def)
qed

lemma YearFromDay_range:
  assumes "- 100000000 \<le> z" "z \<le> 100000000"
  shows "- 1000000 < YearFromDay z \<and> YearFromDay z < 1000000"
proof -
  have "(400 * (- 100000000)) div 146097 \<le> (400 * z) div (146097::int)"
    using assms by (intro zdiv_mono1) auto
  moreover have "(400 * z) div (146097::int) \<le> (400 * 100000000) div 146097"
    using assms by (intro zdiv_mono1) auto
  ultimately show ?thesis by (auto simp: YearFromDay_def Let_def)
qed

lemma TimeClip_midnight:
  assumes "\<bar>t\<bar> \<le> 8640000000000000"
  shows "TimeClip (Day t * msPerDay) = Some (Day t * msPerDay)"
  using Day_bounds[OF assms] by (auto simp: TimeClip_def msPerDay_def abs_le_iff)

lemma iso_date_only_iso_date:
  assumes "\<bar>t\<bar> \<le> 8640000000000000"
  shows "iso_date_only (iso_date t) = Some (Day t * msPerDay)"
proof -
  have y: "- 1000000 < YearFromTime t" "YearFromTime t < 1000000"
    using YearFromDay_range[of "Day t"] Day_bounds[OF assms] by (simp_all add: YearFromTime_def)
  have len: "length (''-'' @ pad 2 (MonthFromTime t + 1) @ ''-'' @ pad 2 (DateFromTime t)) = 6"
    by (simp add: length_pad)
  have "iso_date_only (iso_date t)
          = iso_fields (YearFromTime t)
              (''-'' @ pad 2 (MonthFromTime t + 1) @ ''-'' @ pad 2 (DateFromTime t))"
    unfolding iso_date_eq by (rule iso_date_only_written[OF y len])
  also have "\<dots> = TimeClip (MakeDay (YearFromTime t) (MonthFromTime t) (DateFromTime t) * msPerDay)"
    using MonthFromTime_range[of t] DateFromTime_range[of t] by (intro iso_fields_written) auto
  also have "\<dots> = Some (Day t * msPerDay)"
    by (simp add: MakeDay_civil TimeClip_midnight[OF assms])
  finally show ?thesis .
qed

lemma Date_parse_iso_date:
  "\<bar>t\<bar> \<le> 8640000000000000 \<Longrightarrow> Date_parse eng (iso_date t) = Some (Day t * msPerDay)"
  by (simp add: Date_parse_def iso_date_only_iso_date)

lemma Day_midnight: "Day (Day t * msPerDay) = Day t"
  by (simp add: Day_def msPerDay_def)

lemma iso_date_midnight: "iso_date (Day t * msPerDay) = iso_date t"
  by (simp add: iso_date_eq YearFromTime_def MonthFromTime_def DateFromTime_def
      DayWithinYear_def Day_midnight)

lemma is_civil_date_iso_date:
  assumes "0 \<le> YearFromTime t" "YearFromTime t \<le> 9999"
  shows "is_civil_date (iso_date t)"
  using assms pad_digits
  by (simp add: is_civil_date_def iso_date_eq year_text_def length_pad nth_append)

lemma is_expanded_date_iso_date:
  assumes "10000 \<le> YearFromTime t"
  shows "is_expanded_date (iso_date t)"
  using assms pad_digits
  by (simp add: is_expanded_date_def iso_date_eq year_text_def length_pad nth_append)

lemma iso_fields_range: "iso_fields y rest = Some t \<Longrightarrow> \<bar>t\<bar> \<le> 8640000000000000"
  by (auto simp: iso_fields_def TimeClip_def split: list.splits option.splits if_splits)

lemma iso_date_only_range: "iso_date_only s = Some t \<Longrightarrow> \<bar>t\<bar> \<le> 8640000000000000"
  by (auto simp: iso_date_only_def dest: iso_fields_range split: option.splits if_splits)

lemma Date_parse_range: "Date_parse eng s = Some t \<Longrightarrow> \<bar>t\<bar> \<le> 8640000000000000"
  by (auto simp: Date_parse_def TimeClip_def dest: iso_date_only_range split: option.splits if_splits)

section \<open>What an import delivers\<close>

text \<open>
  A record that an upload delivers comes from one row, carries that row's index, and has
  a timestamp above 0 with the date part of its ISO text as date. Of a batch that passes
  the check of the first row and in which every row is formatted, the survivors are the
  rows with a timestamp above 0, in row order.
\<close>

lemma new_Date_range: "new_Date eng v = Some t \<Longrightarrow> \<bar>t\<bar> \<le> 8640000000000000"
  by (auto simp: new_Date_def new_Date_number_def TimeClip_def dest: Date_parse_range
      split: option.splits cell.splits if_splits)

lemma parse_row_date_kept:
  assumes "parse_row_date eng r = Inr (ds, t)" "t \<noteq> 0"
  shows "ds = iso_date t \<and> \<bar>t\<bar> \<le> 8640000000000000"
  using assms
  by (auto simp: parse_row_date_def iso_date_def new_Date_number_def TimeClip_def
      dest: new_Date_range split: option.splits cell.splits number.splits if_splits)

lemma formatRow_Inr:
  assumes "formatRow eng now r i = Inr item"
  shows "parse_row_date eng r = Inr (date item, the (timestamp item)) \<and> timestamp item \<noteq> None
         \<and> rec_id item = ExcelId now i
         \<and> quantity item = or0 (Number_of eng (map_of r col_quantity))
         \<and> amount item = or0 (Number_of eng (map_of r col_amount))"
  using assms by (auto simp: formatRow_def split: sum.splits)

lemma map_rows_Inr:
  "map_rows eng clock i rows = Inr items \<Longrightarrow>
     length items = length rows \<and> (\<forall>k<length rows. formatRow eng (clock (i + k)) (rows ! k) (i + k) = Inr (items ! k))"
proof (induction rows arbitrary: i items)
  case Nil
  then show ?case by simp
next
  case (Cons r rs)
  from Cons.prems obtain item rest where
    f: "formatRow eng (clock i) r i = Inr item" and m: "map_rows eng clock (Suc i) rs = Inr rest"
    and e: "items = item # rest"
    by (auto split: sum.splits)
  from Cons.IH[OF m] have len: "length rest = length rs"
    and all: "\<forall>k<length rs. formatRow eng (clock (Suc i + k)) (rs ! k) (Suc i + k) = Inr (rest ! k)" by simp_all
  show ?case
  proof (intro conjI allI impI)
    show "length items = length (r # rs)" using len e by simp
  next
    fix k assume "k < length (r # rs)"
    then show "formatRow eng (clock (i + k)) ((r # rs) ! k) (i + k) = Inr (items ! k)"
      using f all e by (cases k) auto
  qed
qed

lemma reader_onload_imported:
  assumes "imported (reader_onload eng clock xlsx sheet) = Some recs"
  shows "\<exists>rows items. sheet = Inr rows \<and> map_rows eng clock 0 rows = Inr items
           \<and> recs = filter keep_item items"
  using assms
  by (auto simp: reader_onload_def Let_def split: if_splits sum.splits list.splits)

lemma handleFileUpload_imported:
  assumes "imported (handleFileUpload eng clock l x file shown) = Some recs"
  shows "\<exists>rows items. file = Some (Inr rows) \<and> map_rows eng clock 0 rows = Inr items
           \<and> recs = filter keep_item items"
  using assms reader_onload_imported
  by (auto simp: handleFileUpload_def split: if_splits option.splits)

lemma survivor_of_import:
  assumes "imported (handleFileUpload eng clock l x file shown) = Some recs" "rec \<in> set recs"
  shows "\<exists>rows k t. file = Some (Inr rows) \<and> k < length rows
           \<and> parse_row_date eng (rows ! k) = Inr (date rec, t) \<and> timestamp rec = Some t \<and> 0 < t
           \<and> rec_id rec = ExcelId (clock k) k"
proof -
  from handleFileUpload_imported[OF assms(1)] obtain rows items where
    f: "file = Some (Inr rows)" and m: "map_rows eng clock 0 rows = Inr items"
    and r: "recs = filter keep_item items" by blast
  from assms(2) r have "rec \<in> set items" and k: "keep_item rec" by simp_all
  then obtain k where kl: "k < length items" and ik: "items ! k = rec"
    by (auto simp: in_set_conv_nth)
  from map_rows_Inr[OF m] kl have len: "k < length rows"
    and fr: "formatRow eng (clock k) (rows ! k) k = Inr (items ! k)" by simp_all
  from formatRow_Inr[OF fr] ik obtain t where
    "timestamp rec = Some t" "parse_row_date eng (rows ! k) = Inr (date rec, t)"
    "rec_id rec = ExcelId (clock k) k" by auto
  moreover from this k have "0 < t" by (simp add: keep_item_def)
  ultimately show ?thesis using f len by blast
qed

lemma survivor_date:
  assumes "imported (handleFileUpload eng clock l x file shown) = Some recs" "rec \<in> set recs"
  shows "\<exists>t. timestamp rec = Some t \<and> 0 < t \<and> t \<le> 8640000000000000 \<and> date rec = iso_date t"
proof -
  from survivor_of_import[OF assms] obtain rows k t where
    p: "parse_row_date eng (rows ! k) = Inr (date rec, t)" and t: "timestamp rec = Some t" "0 < t"
    by blast
  from parse_row_date_kept[OF p] t show ?thesis by auto
qed

lemma reparse_iso_date:
  assumes "\<bar>t\<bar> \<le> 8640000000000000" "map_of r col_date = Some (CStr (iso_date t))"
  shows "parse_row_date eng r = Inr (iso_date t, Day t * msPerDay)"
  using assms Date_parse_iso_date[OF assms(1), of eng]
  by (simp add: parse_row_date_def new_Date_def iso_date_midnight iso_date_def[symmetric])

lemma no_missing_keys:
  "has_columns r \<Longrightarrow> filter (\<lambda>key. map_of r key = None) requiredKeys = []"
  by (simp add: has_columns_def requiredKeys_def)

lemma import_single_row:
  assumes "has_columns r" "parse_row_date eng r = Inr (ds, t0)"
  shows "map (\<lambda>x. (date x, timestamp x)) (survivors (reader_onload eng clock True (Inr [r])))
           = (if 0 < t0 then [(ds, Some t0)] else [])"
  using assms
  by (simp add: reader_onload_def no_missing_keys formatRow_def keep_item_def survivors_def)

lemma midnight_positive: "(0 < t - TimeWithinDay t) = (86400000 \<le> t)"
proof -
  have "t - TimeWithinDay t = 86400000 * (t div 86400000)"
    by (simp add: TimeWithinDay_def msPerDay_def minus_mod_eq_mult_div)
  moreover have "(0 < t div (86400000::int)) = (86400000 \<le> t)"
    by (simp add: pos_imp_zdiv_pos_iff)
  ultimately show ?thesis by simp
qed

lemma or0_coerced: "or0 n = coerced n"
  by (simp add: or0_def coerced_def)

lemma map_rows_total:
  "\<forall>k<length rows. \<exists>ds t. parse_row_date eng (rows ! k) = Inr (ds, t)
     \<Longrightarrow> \<exists>items. map_rows eng clock i rows = Inr items"
proof (induction rows arbitrary: i)
  case Nil
  then show ?case by simp
next
  case (Cons r rs)
  from Cons.prems[rule_format, of 0] obtain ds t where p: "parse_row_date eng r = Inr (ds, t)"
    by auto
  have "\<forall>k<length rs. \<exists>ds t. parse_row_date eng (rs ! k) = Inr (ds, t)"
  proof (intro allI impI)
    fix k assume "k < length rs"
    then show "\<exists>ds t. parse_row_date eng (rs ! k) = Inr (ds, t)"
      using Cons.prems[rule_format, of "Suc k"] by simp
  qed
  from Cons.IH[OF this, of "Suc i"] obtain rest where "map_rows eng clock (Suc i) rs = Inr rest"
    by blast
  then show ?case using p by (simp add: formatRow_def)
qed

lemma filter_by_index:
  "filter P (map f ks) = concat (map (\<lambda>k. if P (f k) then [f k] else []) ks)"
  by (induction ks) simp_all

lemma filter_as_concat:
  "filter P xs = concat (map (\<lambda>k. if P (xs ! k) then [xs ! k] else []) [0..<length xs])"
  using filter_by_index[of P "nth xs" "[0..<length xs]"] by (simp add: map_nth)

lemma formatRow_record:
  assumes "formatRow eng now r i = Inr item"
  shows "\<exists>ds t. parse_row_date eng r = Inr (ds, t)
           \<and> item = \<lparr>rec_id = ExcelId now i, date = ds,
                      category = String_of eng (map_of r col_category),
                      productName = String_of eng (map_of r col_product),
                      quantity = coerced (Number_of eng (map_of r col_quantity)),
                      amount = coerced (Number_of eng (map_of r col_amount)),
                      timestamp = Some t\<rparr>"
  using assms by (auto simp: formatRow_def or0_coerced split: sum.splits)

lemma kept_items:
  assumes m: "map_rows eng clock 0 rows = Inr items"
  shows "filter keep_item items
           = concat (map (\<lambda>k. case parse_row_date eng (rows ! k) of
                                 Inl e \<Rightarrow> []
                               | Inr (ds, t) \<Rightarrow>
                                   if 0 < t then
                                     [\<lparr>rec_id = ExcelId (clock k) k, date = ds,
                                       category = String_of eng (map_of (rows ! k) col_category),
                                       productName = String_of eng (map_of (rows ! k) col_product),
                                       quantity = coerced (Number_of eng (map_of (rows ! k) col_quantity)),
                                       amount = coerced (Number_of eng (map_of (rows ! k) col_amount)),
                                       timestamp = Some t\<rparr>]
                                   else [])
                      [0..<length rows])"
proof -
  from map_rows_Inr[OF m] have len: "length items = length rows"
    and f: "\<forall>k<length rows. formatRow eng (clock k) (rows ! k) k = Inr (items ! k)" by simp_all
  have "map (\<lambda>k. if keep_item (items ! k) then [items ! k] else []) [0..<length rows]
          = map (\<lambda>k. case parse_row_date eng (rows ! k) of
                        Inl e \<Rightarrow> []
                      | Inr (ds, t) \<Rightarrow>
                          if 0 < t then
                            [\<lparr>rec_id = ExcelId (clock k) k, date = ds,
                              category = String_of eng (map_of (rows ! k) col_category),
                              productName = String_of eng (map_of (rows ! k) col_product),
                              quantity = coerced (Number_of eng (map_of (rows ! k) col_quantity)),
                              amount = coerced (Number_of eng (map_of (rows ! k) col_amount)),
                              timestamp = Some t\<rparr>]
                          else [])
              [0..<length rows]"
  proof (rule map_cong[OF refl])
    fix k assume "k \<in> set [0..<length rows]"
    then have "k < length rows" by simp
    with f have "formatRow eng (clock k) (rows ! k) k = Inr (items ! k)" by simp
    from formatRow_record[OF this] obtain ds t where
      p: "parse_row_date eng (rows ! k) = Inr (ds, t)"
      and i: "items ! k = \<lparr>rec_id = ExcelId (clock k) k, date = ds,
                      category = String_of eng (map_of (rows ! k) col_category),
                      productName = String_of eng (map_of (rows ! k) col_product),
                      quantity = coerced (Number_of eng (map_of (rows ! k) col_quantity)),
                      amount = coerced (Number_of eng (map_of (rows ! k) col_amount)),
                      timestamp = Some t\<rparr>" by blast
    have "keep_item (items ! k) = (0 < t)" by (simp add: i keep_item_def)
    then show "(if keep_item (items ! k) then [items ! k] else [])
          = (case parse_row_date eng (rows ! k) of
                        Inl e \<Rightarrow> []
                      | Inr (ds, t) \<Rightarrow>
                          if 0 < t then
                            [\<lparr>rec_id = ExcelId (clock k) k, date = ds,
                              category = String_of eng (map_of (rows ! k) col_category),
                              productName = String_of eng (map_of (rows ! k) col_product),
                              quantity = coerced (Number_of eng (map_of (rows ! k) col_quantity)),
                              amount = coerced (Number_of eng (map_of (rows ! k) col_amount)),
                              timestamp = Some t\<rparr>]
                          else [])"
      using p i by simp
  qed
  then show ?thesis
    unfolding filter_as_concat[of keep_item items] len by (rule arg_cong)
qed

lemma reader_onload_checked:
  assumes "rows \<noteq> []" "has_columns (hd rows)" "map_rows eng clock 0 rows = Inr items"
  shows "reader_onload eng clock True (Inr rows)
           = (if filter keep_item items = [] then \<lparr>errorMsg = Some NoValidData, imported = None\<rparr>
              else \<lparr>errorMsg = None, imported = Some (filter keep_item items)\<rparr>)"
proof -
  from assms(1) obtain r rs where rows: "rows = r # rs" by (cases rows) auto
  with assms(2) have "filter (\<lambda>key. map_of r key = None) requiredKeys = []"
    by (simp add: no_missing_keys)
  then show ?thesis using assms(3) unfolding rows by (simp add: reader_onload_def Let_def)
qed

lemma unparsed_date_text:
  "map_of r col_date = Some (CStr s) \<Longrightarrow> Date_parse eng s = None
     \<Longrightarrow> parse_row_date eng r = Inr (s, 0)"
  by (simp add: parse_row_date_def new_Date_def String_of_def)

lemma import_of_example:
  assumes lp: "legacy_parse eng ''not-a-date'' = None"
    and c: "map_of r2 col_date = Some (CStr ''not-a-date'')"
  shows "reader_onload eng clock True (Inr [sample_row (CStr ''2024-01-15''), r2])
           = \<lparr>errorMsg = None,
              imported = Some [sample_record (ExcelId (clock 0) 0) ''2024-01-15''
                                 (Some 1705276800000)]\<rparr>"
proof -
  have i1: "iso_date_only ''2024-01-15'' = Some 1705276800000" by code_simp
  have i2: "iso_date_only ''not-a-date'' = None" by code_simp
  have s1: "split0 (CHR ''T'') (toISOString 1705276800000) = ''2024-01-15''" by code_simp
  have k: "filter (\<lambda>key. map_of (sample_row (CStr ''2024-01-15'')) key = None) requiredKeys = []"
    by code_simp
  have p1: "parse_row_date eng (sample_row (CStr ''2024-01-15''))
              = Inr (''2024-01-15'', 1705276800000)"
    by (simp add: parse_row_date_def sample_row_def new_Date_def Date_parse_def i1 s1)
  have "Date_parse eng ''not-a-date'' = None" by (simp add: Date_parse_def i2 lp)
  then have p2: "parse_row_date eng r2 = Inr (''not-a-date'', 0)"
    using c by (rule unparsed_date_text[rotated])
  have m1: "map_of (sample_row (CStr ''2024-01-15'')) col_category = Some (CStr ''A'')"
    "map_of (sample_row (CStr ''2024-01-15'')) col_product = Some (CStr ''X'')"
    "map_of (sample_row (CStr ''2024-01-15'')) col_quantity = Some (CNum 2)"
    "map_of (sample_row (CStr ''2024-01-15'')) col_amount = Some (CNum 100)"
    by code_simp+
  show ?thesis
    by (simp add: reader_onload_def k formatRow_def p1 p2 m1 keep_item_def String_of_def
        Number_of_def or0_def sample_record_def)
qed

lemma map_rows_throw:
  "\<exists>k<length rows. \<exists>e. parse_row_date eng (rows ! k) = Inl e
     \<Longrightarrow> \<exists>e. map_rows eng clock i rows = Inl e"
proof (induction rows arbitrary: i)
  case Nil
  then show ?case by simp
next
  case (Cons r rs)
  show ?case
  proof (cases "formatRow eng (clock i) r i")
    case (Inl e)
    then show ?thesis by simp
  next
    case (Inr item)
    then have "\<not> (\<exists>e. parse_row_date eng r = Inl e)"
      by (auto simp: formatRow_def split: sum.splits)
    with Cons.prems obtain k e where k: "k < length (r # rs)"
      "parse_row_date eng ((r # rs) ! k) = Inl e" "k \<noteq> 0"
      by (metis nth_Cons_0)
    then obtain j where "k = Suc j" by (cases k) auto
    with k have "\<exists>j<length rs. \<exists>e. parse_row_date eng (rs ! j) = Inl e" by auto
    from Cons.IH[OF this, of "Suc i"] obtain e' where "map_rows eng clock (Suc i) rs = Inl e'"
      by blast
    then show ?thesis using Inr by simp
  qed
qed

lemma parsed_date_text:
  "map_of r col_date = Some (CStr s) \<Longrightarrow> Date_parse eng s = Some t
     \<Longrightarrow> parse_row_date eng r = Inr (split0 (CHR ''T'') (toISOString t), t)"
  by (simp add: parse_row_date_def new_Date_def)

lemma no_number_no_throw:
  "\<forall>x. map_of r col_date \<noteq> Some (CNum x) \<Longrightarrow> \<exists>ds t. parse_row_date eng r = Inr (ds, t)"
  by (auto simp: parse_row_date_def split: option.splits cell.splits)

lemma Math_round_int: "Math_round (Fin (of_int m)) = Fin (of_int m)"
proof -
  have "\<lfloor>(of_int m :: rat) + 1 / 2\<rfloor> = m" by (rule floor_unique) auto
  then show ?thesis by (simp add: Math_round_def)
qed

lemma new_Date_number_int: "new_Date_number (Fin (of_int m)) = TimeClip m"
  by (simp add: new_Date_number_def)

lemma serial_ms:
  assumes "\<bar>n - 25569\<bar> \<le> 100000000"
  shows "Math_round (js_mul (js_mul (js_sub (Fin (of_int n)) (Fin 25569)) (Fin 86400)) (Fin 1000))
           = Fin (of_int ((n - 25569) * 86400000))"
proof -
  have b: "\<bar>n - 25569\<bar> \<le> 2 ^ 53" "\<bar>(n - 25569) * 86400\<bar> \<le> 2 ^ 53"
    "\<bar>(n - 25569) * 86400 * 1000\<bar> \<le> 2 ^ 53"
    using assms by (simp_all add: abs_mult)
  have "js_sub (Fin (of_int n)) (Fin 25569) = to_double (of_int (n - 25569))"
    by (simp add: js_sub_def js_neg_def js_add_def)
  also have "\<dots> = Fin (of_int (n - 25569))" using b(1) by (rule to_double_int)
  finally have 1: "js_sub (Fin (of_int n)) (Fin 25569) = Fin (of_int (n - 25569))" .
  have "js_mul (Fin (of_int (n - 25569))) (Fin 86400) = to_double (of_int ((n - 25569) * 86400))"
    by (simp add: js_mul_def)
  also have "\<dots> = Fin (of_int ((n - 25569) * 86400))" using b(2) by (rule to_double_int)
  finally have 2: "js_mul (Fin (of_int (n - 25569))) (Fin 86400)
                     = Fin (of_int ((n - 25569) * 86400))" .
  have "js_mul (Fin (of_int ((n - 25569) * 86400))) (Fin 1000)
          = to_double (of_int ((n - 25569) * 86400 * 1000))"
    by (simp add: js_mul_def)
  also have "\<dots> = Fin (of_int ((n - 25569) * 86400 * 1000))" using b(3) by (rule to_double_int)
  finally have 3: "js_mul (Fin (of_int ((n - 25569) * 86400))) (Fin 1000)
                     = Fin (of_int ((n - 25569) * 86400 * 1000))" .
  have 4: "(n - 25569) * 86400 * 1000 = (n - 25569) * 86400000" by simp
  show ?thesis by (simp only: 1 2 3 Math_round_int 4)
qed

lemma whole_serial_day:
  assumes "map_of r col_date = Some (CNum (of_int n))" "\<bar>n - 25569\<bar> \<le> 100000000"
  shows "parse_row_date eng r
           = Inr (split0 (CHR ''T'') (toISOString ((n - 25569) * 86400000)),
                  (n - 25569) * 86400000)"
proof -
  have "\<bar>(n - 25569) * 86400000\<bar> \<le> 8640000000000000"
    using assms(2) by (simp add: abs_mult)
  then have "TimeClip ((n - 25569) * 86400000) = Some ((n - 25569) * 86400000)"
    by (simp only: TimeClip_def if_True)
  then have "new_Date_number
               (Math_round
                  (js_mul (js_mul (js_sub (Fin (of_int n)) (Fin 25569)) (Fin 86400)) (Fin 1000)))
               = Some ((n - 25569) * 86400000)"
    by (simp only: serial_ms[OF assms(2)] new_Date_number_int)
  then show ?thesis
    using assms(1) by (simp add: parse_row_date_def)
qed

lemma first_row_check:
  "handleFileUpload eng clock True True (Some (Inr (r # rs))) shown
     = (let missing = filter (\<lambda>key. map_of r key = None)
                        [col_date, col_category, col_product, col_quantity, col_amount]
        in if missing \<noteq> [] then \<lparr>errorMsg = Some (MissingColumns missing), imported = None\<rparr>
           else case map_rows eng clock 0 (r # rs) of
                  Inl e \<Rightarrow> \<lparr>errorMsg = Some CannotParse, imported = None\<rparr>
                | Inr items \<Rightarrow>
                    if filter keep_item items \<noteq> [] then
                      \<lparr>errorMsg = None, imported = Some (filter keep_item items)\<rparr>
                    else \<lparr>errorMsg = Some NoValidData, imported = None\<rparr>)"
  by (simp add: handleFileUpload_def reader_onload_def requiredKeys_def Let_def
      split: sum.splits)

section \<open>What the aggregation builds\<close>

text \<open>
  Unless breakdown mode meets a category named \<open>date\<close>, every trend bucket keeps the
  text of its key in its \<open>date\<close> property, and sorting the buckets cannot throw.
\<close>

lemma update_keeps_other: "k \<noteq> k' \<Longrightarrow> map_of (AList.update k v al) k' = map_of al k'"
  by (simp add: update_conv')

lemma new_bucket_date:
  "''date'' \<notin> set cats \<Longrightarrow>
     map_of (foldl (\<lambda>b c. AList.update c v b) b0 cats) ''date'' = map_of b0 ''date''"
  by (induction cats arbitrary: b0) (auto simp: update_keeps_other)

lemma has_date_new_bucket: "''date'' \<notin> set cats \<Longrightarrow> has_date (new_bucket key cats)"
  by (simp add: has_date_def new_bucket_def new_bucket_date)

lemma has_date_update: "k \<noteq> ''date'' \<Longrightarrow> has_date (AList.update k v b) = has_date b"
  by (simp add: has_date_def update_keeps_other)

lemma values_update: "snd ` set (AList.update k v al) \<subseteq> insert v (snd ` set al)"
  by (induction al) auto

lemma trend_step_dated:
  assumes inv: "\<forall>p \<in> set trendMap. has_date (snd p)"
    and ok: "g \<longrightarrow> ''date'' \<notin> set cats \<and> category d \<noteq> ''date''"
  shows "\<forall>p \<in> set (trend_step eng vm g cats trendMap d). has_date (snd p)"
proof -
  define key where "key = bucket_key eng vm d"
  define b0 where "b0 = (case map_of trendMap key of
                  None \<Rightarrow> new_bucket key (if g then cats else [])
                | Some b \<Rightarrow> b)"
  define b1 where "b1 = AList.update ''amount'' (js_plus eng (map_of b0 ''amount'') (amount d)) b0"
  define b2 where "b2 = AList.update ''qty'' (js_plus eng (map_of b1 ''qty'') (quantity d)) b1"
  define b3 where "b3 = (if g then
                  AList.update (category d)
                    (js_plus eng (Some (js_or0 (map_of b2 (category d)))) (amount d)) b2
                else b2)"
  have h0: "has_date b0"
  proof (cases "map_of trendMap key")
    case None
    then show ?thesis using ok by (auto simp: b0_def intro: has_date_new_bucket)
  next
    case (Some b)
    then have "(key, b) \<in> set trendMap" by (rule map_of_SomeD)
    then show ?thesis using inv Some by (auto simp: b0_def)
  qed
  have h3: "has_date b3"
    using h0 ok by (auto simp: b3_def b2_def b1_def has_date_update)
  have step: "trend_step eng vm g cats trendMap d = AList.update key b3 trendMap"
    unfolding trend_step_def Let_def b3_def b2_def b1_def b0_def key_def by (rule refl)
  show ?thesis
    unfolding step using values_update[of key b3 trendMap] inv h3 by fastforce
qed

lemma foldl_trend_dated:
  assumes "\<forall>p \<in> set m0. has_date (snd p)"
    and "\<forall>d \<in> set ds. g \<longrightarrow> ''date'' \<notin> set cats \<and> category d \<noteq> ''date''"
  shows "\<forall>p \<in> set (foldl (trend_step eng vm g cats) m0 ds). has_date (snd p)"
  using assms
proof (induction ds arbitrary: m0)
  case Nil
  then show ?case by simp
next
  case (Cons d ds)
  have "\<forall>p \<in> set (trend_step eng vm g cats m0 d). has_date (snd p)"
    using Cons.prems by (intro trend_step_dated) auto
  then show ?case using Cons.IH Cons.prems by simp
qed

lemma sort_trend_dated: "list_all has_date bs \<Longrightarrow> \<exists>sorted. sort_trend bs = Inr sorted"
  by (simp add: sort_trend_def)

lemma set_allCategories: "set (allCategories ds) = category ` set ds"
  by (simp add: allCategories_def)

lemma in_range_all:
  assumes "date_consistent eng d" "date_within eng s e d"
  shows "in_range s e ''all'' d"
  using assms
  by (auto simp: in_range_def date_consistent_def date_within_def Let_def split: option.splits)

lemma in_range_all_eq:
  "in_range s e ''all'' d
     = (case timestamp d of None \<Rightarrow> False | Some t \<Rightarrow> s \<le> t \<and> t < e + 86400000)"
  by (simp add: in_range_def Let_def split: option.splits)

section \<open>The properties\<close>

subsection \<open>C1: totals over the full date range\<close>

text \<open>
  C1, as amended. For a record set that is not empty, a range whose two dates parse, and
  the product selection \<open>all\<close>, the aggregation keeps exactly the records whose
  timestamp lies from the start of the range up to, but not at, one day after its end.
  Its \<open>totalSales\<close> is the amounts of these records added one after the other in
  record order, each addition rounded to a double, and its \<open>totalQty\<close> the
  quantities likewise. The totals are the exact sums when the values are whole numbers
  whose magnitudes add up to no more than \<open>2\<close> to the \<open>53\<close>. When the range
  spans the dates of all records and the timestamp of every record lies in the UTC day
  that its date names (as the timestamp of every record of the form or of an import
  does), every record is kept and the totals run over the whole record set. The case of
  breakdown mode meeting a category named \<open>date\<close> is left out: there the buckets lose
  their date and sorting them throws.
\<close>

theorem c1_full_range_totals:
  assumes "externalData \<noteq> []"
    and "range_start dateRange \<noteq> []" and "range_end dateRange \<noteq> []"
    and "Date_parse eng (range_start dateRange) = Some s"
    and "Date_parse eng (range_end dateRange) = Some e"
    and "isGroupByCategory \<longrightarrow> ''date'' \<notin> category ` set externalData"
  shows "\<exists>v. processedData eng externalData dateRange vm ''all'' isGroupByCategory = Inr (Some v)
           \<and> filteredRaw v
               = filter (\<lambda>d. case timestamp d of
                                None \<Rightarrow> False
                              | Some t \<Rightarrow> s \<le> t \<and> t < e + 86400000) externalData
           \<and> totalSales v = foldl js_add (Fin 0) (map amount (filteredRaw v))
           \<and> totalQty v = foldl js_add (Fin 0) (map quantity (filteredRaw v))
           \<and> (\<forall>ns. map amount (filteredRaw v) = map (\<lambda>n. Fin (of_int n)) ns
                    \<longrightarrow> sum_list (map abs ns) \<le> 2 ^ 53
                    \<longrightarrow> totalSales v = Fin (of_int (sum_list ns)))
           \<and> (\<forall>ns. map quantity (filteredRaw v) = map (\<lambda>n. Fin (of_int n)) ns
                    \<longrightarrow> sum_list (map abs ns) \<le> 2 ^ 53
                    \<longrightarrow> totalQty v = Fin (of_int (sum_list ns)))
           \<and> ((\<forall>d \<in> set externalData. date_consistent eng d \<and> date_within eng s e d)
                \<longrightarrow> filteredRaw v = externalData
                    \<and> totalSales v = foldl js_add (Fin 0) (map amount externalData)
                    \<and> totalQty v = foldl js_add (Fin 0) (map quantity externalData))"
proof -
  define F where "F = filter (in_range s e ''all'') externalData"
  have Fe: "F = filter (\<lambda>d. case timestamp d of
                                None \<Rightarrow> False
                              | Some t \<Rightarrow> s \<le> t \<and> t < e + 86400000) externalData"
    unfolding F_def by (rule filter_cong[OF refl]) (simp add: in_range_all_eq)
  have sub: "set F \<subseteq> set externalData" by (auto simp: F_def)
  have "\<exists>v. processedData eng externalData dateRange vm ''all'' isGroupByCategory = Inr (Some v)
          \<and> filteredRaw v = F
          \<and> totalSales v = foldl js_add (Fin 0) (map amount F)
          \<and> totalQty v = foldl js_add (Fin 0) (map quantity F)"
  proof (cases "F = []")
    case True
    then show ?thesis
      using assms(1-5) by (simp add: processedData_def Let_def F_def[symmetric])
  next
    case False
    let ?m = "foldl (trend_step eng vm isGroupByCategory (allCategories externalData)) [] F"
    have "\<forall>d \<in> set F. isGroupByCategory
            \<longrightarrow> ''date'' \<notin> set (allCategories externalData) \<and> category d \<noteq> ''date''"
    proof (intro ballI impI conjI)
      fix d assume d: "d \<in> set F" and g: isGroupByCategory
      from g assms(6) have n: "''date'' \<notin> category ` set externalData" by simp
      then show "''date'' \<notin> set (allCategories externalData)" by (simp add: set_allCategories)
      from d sub have "d \<in> set externalData" by blast
      with n show "category d \<noteq> ''date''" by (metis imageI)
    qed
    then have "\<forall>p \<in> set ?m. has_date (snd p)"
      by (intro foldl_trend_dated) simp_all
    then have "list_all has_date (map snd ?m)" by (simp add: list_all_iff)
    then obtain sorted where st: "sort_trend (map snd ?m) = Inr sorted"
      using sort_trend_dated by blast
    show ?thesis
      using assms(1-5) False st
      by (simp add: processedData_def Let_def F_def[symmetric] foldl_map)
  qed
  then obtain v where
    p: "processedData eng externalData dateRange vm ''all'' isGroupByCategory = Inr (Some v)"
    and vs: "filteredRaw v = F" "totalSales v = foldl js_add (Fin 0) (map amount F)"
      "totalQty v = foldl js_add (Fin 0) (map quantity F)"
    by blast
  have xs: "\<forall>ns. map amount (filteredRaw v) = map (\<lambda>n. Fin (of_int n)) ns
          \<longrightarrow> sum_list (map abs ns) \<le> 2 ^ 53 \<longrightarrow> totalSales v = Fin (of_int (sum_list ns))"
    using foldl_js_add_exact by (simp add: vs)
  have xq: "\<forall>ns. map quantity (filteredRaw v) = map (\<lambda>n. Fin (of_int n)) ns
          \<longrightarrow> sum_list (map abs ns) \<le> 2 ^ 53 \<longrightarrow> totalQty v = Fin (of_int (sum_list ns))"
    using foldl_js_add_exact by (simp add: vs)
  have full: "(\<forall>d \<in> set externalData. date_consistent eng d \<and> date_within eng s e d)
                \<longrightarrow> filteredRaw v = externalData
                    \<and> totalSales v = foldl js_add (Fin 0) (map amount externalData)
                    \<and> totalQty v = foldl js_add (Fin 0) (map quantity externalData)"
  proof
    assume "\<forall>d \<in> set externalData. date_consistent eng d \<and> date_within eng s e d"
    then have "F = externalData"
      unfolding F_def by (auto simp: filter_id_conv intro: in_range_all)
    then show "filteredRaw v = externalData
                    \<and> totalSales v = foldl js_add (Fin 0) (map amount externalData)
                    \<and> totalQty v = foldl js_add (Fin 0) (map quantity externalData)"
      using vs by simp
  qed
  have a: "filteredRaw v = filter (\<lambda>d. case timestamp d of
                                None \<Rightarrow> False
                              | Some t \<Rightarrow> s \<le> t \<and> t < e + 86400000) externalData"
    using vs(1) Fe by simp
  have b: "totalSales v = foldl js_add (Fin 0) (map amount (filteredRaw v))"
    "totalQty v = foldl js_add (Fin 0) (map quantity (filteredRaw v))"
    using vs by simp_all
  from p a b xs xq full show ?thesis by blast
qed

text \<open>Two records in January and March 2024, breakdown mode on, month view.\<close>

theorem c1_witness:
  "processedData (plain_engine 0)
       [sample_record (Uuid ''a'') ''2024-01-08'' (Some 1704672000000),
        sample_record (Uuid ''b'') ''2024-03-04'' (Some 1709553600000)]
       \<lparr>range_start = ''2024-01-08'', range_end = ''2024-03-04''\<rparr> month ''all'' True
     = Inr (Some
         \<lparr>filteredRaw = [sample_record (Uuid ''a'') ''2024-01-08'' (Some 1704672000000),
                         sample_record (Uuid ''b'') ''2024-03-04'' (Some 1709553600000)],
          totalSales = Fin 200, totalQty = Fin 4, topProduct = ''X'',
          trendData = [[(''date'', Str ''2024-01''), (''amount'', Num (Fin 100)),
                        (''qty'', Num (Fin 2)), (''A'', Num (Fin 100))],
                       [(''date'', Str ''2024-03''), (''amount'', Num (Fin 100)),
                        (''qty'', Num (Fin 2)), (''A'', Num (Fin 100))]],
          categoryData = [(''A'', Fin 200)]\<rparr>)
   \<and> foldl js_add (Fin 0)
       (map amount [sample_record (Uuid ''a'') ''2024-01-08'' (Some 1704672000000),
                    sample_record (Uuid ''b'') ''2024-03-04'' (Some 1709553600000)])
     = Fin (of_int (sum_list [100, 100]))"
proof -
  let ?recs = "[sample_record (Uuid ''a'') ''2024-01-08'' (Some 1704672000000),
        sample_record (Uuid ''b'') ''2024-03-04'' (Some 1709553600000)]"
  let ?r = "\<lparr>range_start = ''2024-01-08'', range_end = ''2024-03-04''\<rparr>"
  have ne: "?recs \<noteq> []" "range_start ?r \<noteq> []" "range_end ?r \<noteq> []" by simp_all
  have s: "Date_parse (plain_engine 0) (range_start ?r) = Some 1704672000000" by code_simp
  have e: "Date_parse (plain_engine 0) (range_end ?r) = Some 1709510400000" by code_simp
  have c: "\<forall>d \<in> set ?recs. date_consistent (plain_engine 0) d
             \<and> date_within (plain_engine 0) 1704672000000 1709510400000 d" by code_simp
  have g: "True \<longrightarrow> ''date'' \<notin> category ` set ?recs" by (simp add: sample_record_def)
  have v: "processedData (plain_engine 0) ?recs ?r month ''all'' True = Inr (Some
         \<lparr>filteredRaw = ?recs,
          totalSales = Fin 200, totalQty = Fin 4, topProduct = ''X'',
          trendData = [[(''date'', Str ''2024-01''), (''amount'', Num (Fin 100)),
                        (''qty'', Num (Fin 2)), (''A'', Num (Fin 100))],
                       [(''date'', Str ''2024-03''), (''amount'', Num (Fin 100)),
                        (''qty'', Num (Fin 2)), (''A'', Num (Fin 100))]],
          categoryData = [(''A'', Fin 200)]\<rparr>)" by code_simp
  have a: "map amount ?recs = map (\<lambda>n. Fin (of_int n)) [100, 100]"
    by (simp add: sample_record_def)
  have b: "sum_list (map abs [100, 100 :: int]) \<le> 2 ^ 53" by simp
  from c1_full_range_totals[OF ne s e g, of month] obtain w where
    w: "processedData (plain_engine 0) ?recs ?r month ''all'' True = Inr (Some w)"
      "\<forall>ns. map amount (filteredRaw w) = map (\<lambda>n. Fin (of_int n)) ns
          \<longrightarrow> sum_list (map abs ns) \<le> 2 ^ 53 \<longrightarrow> totalSales w = Fin (of_int (sum_list ns))"
      "(\<forall>d \<in> set ?recs. date_consistent (plain_engine 0) d
             \<and> date_within (plain_engine 0) 1704672000000 1709510400000 d)
         \<longrightarrow> filteredRaw w = ?recs
             \<and> totalSales w = foldl js_add (Fin 0) (map amount ?recs)
             \<and> totalQty w = foldl js_add (Fin 0) (map quantity ?recs)"
    by blast
  from w(3) c have k: "filteredRaw w = ?recs"
    "totalSales w = foldl js_add (Fin 0) (map amount ?recs)" by blast+
  from a k(1) have a': "map amount (filteredRaw w) = map (\<lambda>n. Fin (of_int n)) [100, 100]"
    by (simp only:)
  from w(2)[rule_format, OF a' b] have "totalSales w = Fin (of_int (sum_list [100, 100]))" .
  with k(2) have "foldl js_add (Fin 0) (map amount ?recs) = Fin (of_int (sum_list [100, 100]))"
    by simp
  then show ?thesis using v by simp
qed

text \<open>
  The claim as it stands fails for the amounts 0.1 and 0.2 (the doubles nearest to them):
  the total is the double 0.30000000000000004, which is not their sum. It also fails for
  a record whose timestamp is not of its date's day (the filter drops it and the totals
  are 0), and by the thrown TypeError when a category is named \<open>date\<close> in breakdown
  mode.
\<close>

theorem c1_counterexample:
  "to_double (1 / 10) = Fin (3602879701896397 / 36028797018963968)
   \<and> to_double (2 / 10) = Fin (3602879701896397 / 18014398509481984)
   \<and> processedData (plain_engine 0)
       [\<lparr>rec_id = Uuid ''a'', date = ''2024-01-15'', category = ''A'', productName = ''X'',
         quantity = Fin 1, amount = Fin (3602879701896397 / 36028797018963968),
         timestamp = Some 1705276800000\<rparr>,
        \<lparr>rec_id = Uuid ''b'', date = ''2024-01-15'', category = ''A'', productName = ''X'',
         quantity = Fin 1, amount = Fin (3602879701896397 / 18014398509481984),
         timestamp = Some 1705276800000\<rparr>]
       \<lparr>range_start = ''2024-01-15'', range_end = ''2024-01-15''\<rparr> day ''all'' False
     = Inr (Some
         \<lparr>filteredRaw =
            [\<lparr>rec_id = Uuid ''a'', date = ''2024-01-15'', category = ''A'', productName = ''X'',
              quantity = Fin 1, amount = Fin (3602879701896397 / 36028797018963968),
              timestamp = Some 1705276800000\<rparr>,
             \<lparr>rec_id = Uuid ''b'', date = ''2024-01-15'', category = ''A'', productName = ''X'',
              quantity = Fin 1, amount = Fin (3602879701896397 / 18014398509481984),
              timestamp = Some 1705276800000\<rparr>],
          totalSales = Fin (1351079888211149 / 4503599627370496), totalQty = Fin 2,
          topProduct = ''X'',
          trendData = [[(''date'', Str ''2024-01-15''),
                        (''amount'', Num (Fin (1351079888211149 / 4503599627370496))),
                        (''qty'', Num (Fin 2))]],
          categoryData = [(''A'', Fin (1351079888211149 / 4503599627370496))]\<rparr>)
   \<and> (3602879701896397 / 36028797018963968 + 3602879701896397 / 18014398509481984 :: rat)
       \<noteq> 1351079888211149 / 4503599627370496
   \<and> processedData (plain_engine 0)
       [sample_record (Uuid ''a'') ''2024-01-15'' (Some 0)]
       \<lparr>range_start = ''2024-01-15'', range_end = ''2024-01-15''\<rparr> day ''all'' False
     = Inr (Some \<lparr>filteredRaw = [], totalSales = Fin 0, totalQty = Fin 0, topProduct = ''-'',
                  trendData = [], categoryData = []\<rparr>)
   \<and> processedData (plain_engine 0)
       [\<lparr>rec_id = Uuid ''a'', date = ''2024-01-08'', category = ''A'', productName = ''X'',
         quantity = Fin 2, amount = Fin 100, timestamp = Some 1704672000000\<rparr>,
        \<lparr>rec_id = Uuid ''b'', date = ''2024-03-04'', category = ''date'', productName = ''Y'',
         quantity = Fin 1, amount = Fin 50, timestamp = Some 1709510400000\<rparr>]
       \<lparr>range_start = ''2024-01-08'', range_end = ''2024-03-04''\<rparr> day ''all'' True
     = Inl TypeError"
  by code_simp

subsection \<open>C2: the empty cases of the aggregation\<close>

text \<open>
  C2, as amended. An empty record set gives \<^verbatim>\<open>null\<close>, and so does a range with an
  empty or unparseable date. For a record set that is not empty and a range that parses,
  an empty filtered subset gives the view model with zero totals, an empty trend series,
  an empty category breakdown and the top product \<open>-\<close>. No case throws: the result
  is never an error.
\<close>

theorem c2_empty_results:
  "processedData eng [] dateRange vm sel g = Inr None
   \<and> (externalData \<noteq> [] \<longrightarrow> range_start dateRange \<noteq> [] \<longrightarrow> range_end dateRange \<noteq> []
        \<longrightarrow> Date_parse eng (range_start dateRange) = Some s
        \<longrightarrow> Date_parse eng (range_end dateRange) = Some e
        \<longrightarrow> filter (in_range s e sel) externalData = []
        \<longrightarrow> processedData eng externalData dateRange vm sel g
            = Inr (Some \<lparr>filteredRaw = [], totalSales = Fin 0, totalQty = Fin 0, topProduct = ''-'',
                         trendData = [], categoryData = []\<rparr>))
   \<and> (range_start dateRange = [] \<or> range_end dateRange = []
        \<or> Date_parse eng (range_start dateRange) = None
        \<or> Date_parse eng (range_end dateRange) = None
        \<longrightarrow> processedData eng externalData dateRange vm sel g = Inr None)"
  by (auto simp: processedData_def split: option.splits)

text \<open>One record of 2024 against a range in 2025, and against a range without a start.\<close>

theorem c2_witness:
  "processedData (plain_engine 0)
       [sample_record (Uuid ''a'') ''2024-01-08'' (Some 1704672000000)]
       \<lparr>range_start = ''2025-01-01'', range_end = ''2025-01-31''\<rparr> day ''all'' False
     = Inr (Some \<lparr>filteredRaw = [], totalSales = Fin 0, totalQty = Fin 0, topProduct = ''-'',
                  trendData = [], categoryData = []\<rparr>)
   \<and> processedData (plain_engine 0)
       [sample_record (Uuid ''a'') ''2024-01-08'' (Some 1704672000000)]
       \<lparr>range_start = '''', range_end = ''2025-01-31''\<rparr> day ''all'' False = Inr None"
proof -
  let ?recs = "[sample_record (Uuid ''a'') ''2024-01-08'' (Some 1704672000000)]"
  let ?r = "\<lparr>range_start = ''2025-01-01'', range_end = ''2025-01-31''\<rparr>"
  have s: "Date_parse (plain_engine 0) (range_start ?r) = Some 1735689600000" by code_simp
  have e: "Date_parse (plain_engine 0) (range_end ?r) = Some 1738281600000" by code_simp
  have f: "filter (in_range 1735689600000 1738281600000 ''all'') ?recs = []" by code_simp
  have ne: "?recs \<noteq> []" "range_start ?r \<noteq> []" "range_end ?r \<noteq> []" by simp_all
  from c2_empty_results[of "plain_engine 0" ?r day "''all''" False ?recs 1735689600000
      1738281600000] ne s e f
  have "processedData (plain_engine 0) ?recs ?r day ''all'' False
     = Inr (Some \<lparr>filteredRaw = [], totalSales = Fin 0, totalQty = Fin 0, topProduct = ''-'',
                  trendData = [], categoryData = []\<rparr>)"
    by blast
  moreover from c2_empty_results[of "plain_engine 0"
      "\<lparr>range_start = '''', range_end = ''2025-01-31''\<rparr>" day "''all''" False ?recs]
  have "processedData (plain_engine 0) ?recs
       \<lparr>range_start = '''', range_end = ''2025-01-31''\<rparr> day ''all'' False = Inr None"
    by simp
  ultimately show ?thesis by simp
qed

text \<open>The claim as it stands fails for the empty record set: the result is \<^verbatim>\<open>null\<close>.\<close>

theorem c2_counterexample:
  "processedData (plain_engine 0) []
       \<lparr>range_start = ''2024-01-01'', range_end = ''2024-01-31''\<rparr> day ''all'' False = Inr None"
  by code_simp

subsection \<open>C3: the week key\<close>

text \<open>
  C3. The week key of a record dated 2024-01-01 whose timestamp is that day's UTC
  midnight: \<open>2024-W1\<close> at UTC and at UTC+8, not \<open>2024-W01\<close>, since the week number is
  written without padding; and \<open>2023-W52\<close> five hours west of UTC, since the day is read
  in local time.
\<close>

theorem c3_week_key_unpadded:
  "bucket_key (plain_engine 0) week
       (sample_record (Uuid ''a'') ''2024-01-01'' (Some 1704067200000)) = ''2024-W1''
   \<and> bucket_key (plain_engine 28800000) week
       (sample_record (Uuid ''a'') ''2024-01-01'' (Some 1704067200000)) = ''2024-W1''
   \<and> bucket_key (plain_engine (- 18000000)) week
       (sample_record (Uuid ''a'') ''2024-01-01'' (Some 1704067200000)) = ''2023-W52''"
  by code_simp

subsection \<open>C4: the order of the trend buckets\<close>

text \<open>
  C4. In week mode the buckets of 2024-01-08 (week 2) and 2024-03-04 (week 10) are
  emitted in the order \<open>2024-W10\<close>, \<open>2024-W2\<close>: sorted as texts, and against the
  calendar.
\<close>

theorem c4_week_buckets_out_of_order:
  "(case processedData (plain_engine 0)
           [sample_record (Uuid ''a'') ''2024-01-08'' (Some 1704672000000),
            sample_record (Uuid ''b'') ''2024-03-04'' (Some 1709510400000)]
           \<lparr>range_start = ''2024-01-08'', range_end = ''2024-03-04''\<rparr> week ''all'' False of
      Inr (Some v) \<Rightarrow> map date_of (trendData v)
    | _ \<Rightarrow> [])
   = [''2024-W10'', ''2024-W2'']"
  by code_simp

subsection \<open>C5: a missing column rejects the batch\<close>

text \<open>
  C5, as amended. With the spreadsheet library loaded, for a batch with at least one
  row: when any of the five required columns is absent from the first row, the upload
  ends with the message that lists
  exactly the absent ones, in the order date, category, product, quantity, amount;
  nothing is handed to the application, and the record set stays as it was. A column
  that is missing from every row is among those listed. When the first row holds all
  five columns no such message is shown, whatever later rows lack. A batch without rows
  ends without any message.
\<close>

theorem c5_missing_column_rejects:
  "(filter (\<lambda>key. map_of r key = None)
       [col_date, col_category, col_product, col_quantity, col_amount] \<noteq> []
      \<longrightarrow> handleFileUpload eng clock True True (Some (Inr (r # rs))) shown
            = \<lparr>errorMsg =
                 Some (MissingColumns
                         (filter (\<lambda>key. map_of r key = None)
                            [col_date, col_category, col_product, col_quantity, col_amount])),
               imported = None\<rparr>
          \<and> deliver (handleFileUpload eng clock True True (Some (Inr (r # rs))) shown) st = st)
   \<and> (\<forall>key \<in> set [col_date, col_category, col_product, col_quantity, col_amount].
        (\<forall>r' \<in> set (r # rs). map_of r' key = None)
        \<longrightarrow> (\<exists>missing.
               handleFileUpload eng clock True True (Some (Inr (r # rs))) shown
                 = \<lparr>errorMsg = Some (MissingColumns missing), imported = None\<rparr>
               \<and> key \<in> set missing
               \<and> deliver (handleFileUpload eng clock True True (Some (Inr (r # rs))) shown) st
                   = st))
   \<and> (filter (\<lambda>key. map_of r key = None)
         [col_date, col_category, col_product, col_quantity, col_amount] = []
      \<longrightarrow> (\<forall>ks. errorMsg (handleFileUpload eng clock True True (Some (Inr (r # rs))) shown)
                  \<noteq> Some (MissingColumns ks)))
   \<and> handleFileUpload eng clock True True (Some (Inr [])) shown
       = \<lparr>errorMsg = None, imported = None\<rparr>"
proof (intro conjI impI ballI allI)
  assume ne: "filter (\<lambda>key. map_of r key = None)
                [col_date, col_category, col_product, col_quantity, col_amount] \<noteq> []"
  then show rej: "handleFileUpload eng clock True True (Some (Inr (r # rs))) shown
            = \<lparr>errorMsg =
                 Some (MissingColumns
                         (filter (\<lambda>key. map_of r key = None)
                            [col_date, col_category, col_product, col_quantity, col_amount])),
               imported = None\<rparr>"
    by (simp add: first_row_check Let_def)
  show "deliver (handleFileUpload eng clock True True (Some (Inr (r # rs))) shown) st = st"
    by (simp only: rej) (simp add: deliver_def)
next
  fix key
  assume k: "key \<in> set [col_date, col_category, col_product, col_quantity, col_amount]"
    and a: "\<forall>r' \<in> set (r # rs). map_of r' key = None"
  let ?missing = "filter (\<lambda>key. map_of r key = None)
                    [col_date, col_category, col_product, col_quantity, col_amount]"
  from a have "map_of r key = None" by simp
  with k have m: "key \<in> set ?missing" unfolding set_filter by blast
  then have ne: "?missing \<noteq> []" by (metis empty_iff empty_set)
  have rej: "handleFileUpload eng clock True True (Some (Inr (r # rs))) shown
               = \<lparr>errorMsg = Some (MissingColumns ?missing), imported = None\<rparr>"
    using ne by (simp add: first_row_check Let_def)
  have "deliver (handleFileUpload eng clock True True (Some (Inr (r # rs))) shown) st = st"
    by (simp only: rej) (simp add: deliver_def)
  with rej m show "\<exists>missing.
               handleFileUpload eng clock True True (Some (Inr (r # rs))) shown
                 = \<lparr>errorMsg = Some (MissingColumns missing), imported = None\<rparr>
               \<and> key \<in> set missing
               \<and> deliver (handleFileUpload eng clock True True (Some (Inr (r # rs))) shown) st
                   = st"
    by blast
next
  fix ks
  assume e: "filter (\<lambda>key. map_of r key = None)
         [col_date, col_category, col_product, col_quantity, col_amount] = []"
  show "errorMsg (handleFileUpload eng clock True True (Some (Inr (r # rs))) shown)
          \<noteq> Some (MissingColumns ks)"
    by (simp only: first_row_check Let_def e) (simp split: sum.splits)
next
  show "handleFileUpload eng clock True True (Some (Inr [])) shown
       = \<lparr>errorMsg = None, imported = None\<rparr>"
    by (simp add: handleFileUpload_def reader_onload_def)
qed

text \<open>
  A sheet of two rows whose first has no quantity cell, with the headers written out in
  their bytes.
\<close>

theorem c5_witness:
  "handleFileUpload (plain_engine 0) (\<lambda>i. 7) True True
       (Some (Inr [[([CHR 0xE6, CHR 0x97, CHR 0xA5, CHR 0xE6, CHR 0x9C, CHR 0x9F],
                      CStr ''2024-01-15''),
                    ([CHR 0xE9, CHR 0xA1, CHR 0x9E, CHR 0xE5, CHR 0x88, CHR 0xA5], CStr ''A''),
                    ([CHR 0xE5, CHR 0x93, CHR 0x81, CHR 0xE5, CHR 0x90, CHR 0x8D], CStr ''X''),
                    ([CHR 0xE9, CHR 0x8A, CHR 0xB7, CHR 0xE5, CHR 0x94, CHR 0xAE,
                      CHR 0xE9, CHR 0x87, CHR 0x91, CHR 0xE9, CHR 0xA1, CHR 0x8D], CNum 100)],
                   sample_row (CStr ''2024-01-16'')])) None
     = \<lparr>errorMsg = Some (MissingColumns [[CHR 0xE6, CHR 0x95, CHR 0xB8, CHR 0xE9, CHR 0x87, CHR 0x8F]]),
        imported = None\<rparr>"
proof -
  let ?r = "[([CHR 0xE6, CHR 0x97, CHR 0xA5, CHR 0xE6, CHR 0x9C, CHR 0x9F],
                      CStr ''2024-01-15''),
                    ([CHR 0xE9, CHR 0xA1, CHR 0x9E, CHR 0xE5, CHR 0x88, CHR 0xA5], CStr ''A''),
                    ([CHR 0xE5, CHR 0x93, CHR 0x81, CHR 0xE5, CHR 0x90, CHR 0x8D], CStr ''X''),
                    ([CHR 0xE9, CHR 0x8A, CHR 0xB7, CHR 0xE5, CHR 0x94, CHR 0xAE,
                      CHR 0xE9, CHR 0x87, CHR 0x91, CHR 0xE9, CHR 0xA1, CHR 0x8D], CNum 100)]"
  have f: "filter (\<lambda>key. map_of ?r key = None)
             [col_date, col_category, col_product, col_quantity, col_amount]
           = [[CHR 0xE6, CHR 0x95, CHR 0xB8, CHR 0xE9, CHR 0x87, CHR 0x8F]]" by code_simp
  from c5_missing_column_rejects[of ?r "plain_engine 0" "\<lambda>i. 7"
      "[sample_row (CStr ''2024-01-16'')]" None]
  show ?thesis unfolding f by simp
qed

text \<open>
  The claim as it stands fails for a sheet without data rows: whichever column it lacks,
  no message is shown.
\<close>

theorem c5_counterexample:
  "list_all (\<lambda>r. map_of r col_quantity = None) ([] :: row list)
   \<and> handleFileUpload (plain_engine 0) (\<lambda>i. 7) True True (Some (Inr [])) None
       = \<lparr>errorMsg = None, imported = None\<rparr>
   \<and> deliver (handleFileUpload (plain_engine 0) (\<lambda>i. 7) True True (Some (Inr [])) None)
       \<lparr>data = [], isLoading = False, console = [], storage = Absent\<rparr>
       = \<lparr>data = [], isLoading = False, console = [], storage = Absent\<rparr>"
  by (simp add: handleFileUpload_def reader_onload_def deliver_def)

subsection \<open>C6: numeric coercion, and rows without a date\<close>

text \<open>
  C6, as amended. For a batch whose first row holds all five columns and in which no
  numeric date cell lies outside the range of dates, the survivors are, in row order,
  one record for each row whose date gives a timestamp above 0, and none for the other
  rows. The record carries the row's index, the date text, and the quantity and amount
  as numbers, 0 where the cell holds no number. When no row survives, nothing is handed
  over and the message says that the file has no valid data.

  What a date cell gives: a text that does not parse gives the timestamp 0, so the row
  is dropped; a text that parses gives its time value and the date part of its ISO text;
  a whole serial day \<open>n\<close> within a hundred million days of 25569 gives the UTC
  midnight of day \<open>n - 25569\<close>; and only a numeric cell can make the formatting
  throw, in which case the upload ends with the message that the file cannot be parsed.

  In particular the row dated 2024-01-15 followed by any row dated \<open>not-a-date\<close>
  leaves exactly the first row's record, for an engine that does not read
  \<open>not-a-date\<close> as a date.
\<close>

theorem c6_coercion_and_drop:
  "(rows \<noteq> [] \<longrightarrow> has_columns (hd rows)
      \<longrightarrow> (\<forall>k<length rows. \<exists>ds t. parse_row_date eng (rows ! k) = Inr (ds, t))
      \<longrightarrow> survivors (reader_onload eng clock True (Inr rows))
            = concat (map (\<lambda>k. case parse_row_date eng (rows ! k) of
                                  Inl e \<Rightarrow> []
                                | Inr (ds, t) \<Rightarrow>
                                    if 0 < t then
                                      [\<lparr>rec_id = ExcelId (clock k) k, date = ds,
                                        category = String_of eng (map_of (rows ! k) col_category),
                                        productName = String_of eng (map_of (rows ! k) col_product),
                                        quantity = coerced (Number_of eng (map_of (rows ! k) col_quantity)),
                                        amount = coerced (Number_of eng (map_of (rows ! k) col_amount)),
                                        timestamp = Some t\<rparr>]
                                    else [])
                       [0..<length rows])
          \<and> errorMsg (reader_onload eng clock True (Inr rows))
            = (if survivors (reader_onload eng clock True (Inr rows)) = []
               then Some NoValidData else None))
   \<and> (rows \<noteq> [] \<longrightarrow> has_columns (hd rows)
      \<longrightarrow> (\<exists>k<length rows. \<exists>e. parse_row_date eng (rows ! k) = Inl e)
      \<longrightarrow> reader_onload eng clock True (Inr rows)
            = \<lparr>errorMsg = Some CannotParse, imported = None\<rparr>)
   \<and> (map_of r col_date = Some (CStr s) \<longrightarrow> Date_parse eng s = None
        \<longrightarrow> parse_row_date eng r = Inr (s, 0))
   \<and> (map_of r col_date = Some (CStr s) \<longrightarrow> Date_parse eng s = Some t
        \<longrightarrow> parse_row_date eng r = Inr (split0 (CHR ''T'') (toISOString t), t))
   \<and> (map_of r col_date = Some (CNum (of_int n)) \<longrightarrow> \<bar>n - 25569\<bar> \<le> 100000000
        \<longrightarrow> parse_row_date eng r
            = Inr (split0 (CHR ''T'') (toISOString ((n - 25569) * 86400000)),
                   (n - 25569) * 86400000))
   \<and> ((\<forall>x. map_of r col_date \<noteq> Some (CNum x))
        \<longrightarrow> (\<exists>ds t. parse_row_date eng r = Inr (ds, t)))
   \<and> (legacy_parse eng ''not-a-date'' = None
        \<longrightarrow> map_of r2 col_date = Some (CStr ''not-a-date'')
        \<longrightarrow> reader_onload eng clock True (Inr [sample_row (CStr ''2024-01-15''), r2])
            = \<lparr>errorMsg = None,
               imported = Some [sample_record (ExcelId (clock 0) 0) ''2024-01-15''
                                  (Some 1705276800000)]\<rparr>)"
proof (intro conjI impI)
  assume a: "rows \<noteq> []" "has_columns (hd rows)"
    "\<forall>k<length rows. \<exists>ds t. parse_row_date eng (rows ! k) = Inr (ds, t)"
  from map_rows_total[OF a(3)] obtain items where m: "map_rows eng clock 0 rows = Inr items"
    by blast
  note r = reader_onload_checked[OF a(1,2) m]
  have s: "survivors (reader_onload eng clock True (Inr rows)) = filter keep_item items"
    by (simp add: r survivors_def)
  show "survivors (reader_onload eng clock True (Inr rows))
            = concat (map (\<lambda>k. case parse_row_date eng (rows ! k) of
                                  Inl e \<Rightarrow> []
                                | Inr (ds, t) \<Rightarrow>
                                    if 0 < t then
                                      [\<lparr>rec_id = ExcelId (clock k) k, date = ds,
                                        category = String_of eng (map_of (rows ! k) col_category),
                                        productName = String_of eng (map_of (rows ! k) col_product),
                                        quantity = coerced (Number_of eng (map_of (rows ! k) col_quantity)),
                                        amount = coerced (Number_of eng (map_of (rows ! k) col_amount)),
                                        timestamp = Some t\<rparr>]
                                    else [])
                       [0..<length rows])"
    unfolding s by (rule kept_items[OF m])
  show "errorMsg (reader_onload eng clock True (Inr rows))
            = (if survivors (reader_onload eng clock True (Inr rows)) = []
               then Some NoValidData else None)"
    unfolding s by (simp add: r)
next
  assume a: "rows \<noteq> []" "has_columns (hd rows)"
    "\<exists>k<length rows. \<exists>e. parse_row_date eng (rows ! k) = Inl e"
  from map_rows_throw[OF a(3)] obtain e where m: "map_rows eng clock 0 rows = Inl e" by blast
  from a(1) obtain r' rs where rows: "rows = r' # rs" by (cases rows) auto
  with a(2) have "filter (\<lambda>key. map_of r' key = None) requiredKeys = []"
    by (simp add: no_missing_keys)
  then show "reader_onload eng clock True (Inr rows)
            = \<lparr>errorMsg = Some CannotParse, imported = None\<rparr>"
    using m unfolding rows by (simp add: reader_onload_def Let_def)
next
  assume "map_of r col_date = Some (CStr s)" "Date_parse eng s = None"
  then show "parse_row_date eng r = Inr (s, 0)" by (rule unparsed_date_text)
next
  assume "map_of r col_date = Some (CStr s)" "Date_parse eng s = Some t"
  then show "parse_row_date eng r = Inr (split0 (CHR ''T'') (toISOString t), t)"
    by (rule parsed_date_text)
next
  assume "map_of r col_date = Some (CNum (of_int n))" "\<bar>n - 25569\<bar> \<le> 100000000"
  then show "parse_row_date eng r
            = Inr (split0 (CHR ''T'') (toISOString ((n - 25569) * 86400000)),
                   (n - 25569) * 86400000)"
    by (rule whole_serial_day)
next
  assume "\<forall>x. map_of r col_date \<noteq> Some (CNum x)"
  then show "\<exists>ds t. parse_row_date eng r = Inr (ds, t)" by (rule no_number_no_throw)
next
  assume "legacy_parse eng ''not-a-date'' = None" "map_of r2 col_date = Some (CStr ''not-a-date'')"
  then show "reader_onload eng clock True (Inr [sample_row (CStr ''2024-01-15''), r2])
            = \<lparr>errorMsg = None,
               imported = Some [sample_record (ExcelId (clock 0) 0) ''2024-01-15''
                                  (Some 1705276800000)]\<rparr>"
    by (rule import_of_example)
qed

text \<open>
  Three rows: a quantity that is a word; a date that is none; the serial day 45307 with a
  blank quantity and an amount that is a word.
\<close>

theorem c6_witness:
  "survivors (reader_onload (plain_engine 0) (\<lambda>i. 7) True
       (Inr [[(col_date, CStr ''2024-01-15''), (col_category, CStr ''A''),
              (col_product, CStr ''X''), (col_quantity, CStr ''two''), (col_amount, CNum 100)],
             [(col_date, CStr ''not-a-date''), (col_category, CStr ''B''),
              (col_product, CStr ''Y''), (col_quantity, CNum 1), (col_amount, CStr ''n/a'')],
             [(col_date, CNum 45307), (col_category, CStr ''B''),
              (col_product, CStr ''Y''), (col_amount, CStr ''n/a'')]]))
     = [\<lparr>rec_id = ExcelId 7 0, date = ''2024-01-15'', category = ''A'', productName = ''X'',
         quantity = Fin 0, amount = Fin 100, timestamp = Some 1705276800000\<rparr>,
        \<lparr>rec_id = ExcelId 7 2, date = ''2024-01-16'', category = ''B'', productName = ''Y'',
         quantity = Fin 0, amount = Fin 0, timestamp = Some 1705363200000\<rparr>]
   \<and> errorMsg (reader_onload (plain_engine 0) (\<lambda>i. 7) True
       (Inr [[(col_date, CStr ''2024-01-15''), (col_category, CStr ''A''),
              (col_product, CStr ''X''), (col_quantity, CStr ''two''), (col_amount, CNum 100)],
             [(col_date, CStr ''not-a-date''), (col_category, CStr ''B''),
              (col_product, CStr ''Y''), (col_quantity, CNum 1), (col_amount, CStr ''n/a'')],
             [(col_date, CNum 45307), (col_category, CStr ''B''),
              (col_product, CStr ''Y''), (col_amount, CStr ''n/a'')]])) = None
   \<and> parse_row_date (plain_engine 0) [(col_date, CStr ''not-a-date'')] = Inr (''not-a-date'', 0)
   \<and> parse_row_date (plain_engine 0) [(col_date, CNum 45307)]
       = Inr (''2024-01-16'', 1705363200000)"
proof -
  let ?rows = "[[(col_date, CStr ''2024-01-15''), (col_category, CStr ''A''),
              (col_product, CStr ''X''), (col_quantity, CStr ''two''), (col_amount, CNum 100)],
             [(col_date, CStr ''not-a-date''), (col_category, CStr ''B''),
              (col_product, CStr ''Y''), (col_quantity, CNum 1), (col_amount, CStr ''n/a'')],
             [(col_date, CNum 45307), (col_category, CStr ''B''),
              (col_product, CStr ''Y''), (col_amount, CStr ''n/a'')]]"
  let ?recs = "[\<lparr>rec_id = ExcelId 7 0, date = ''2024-01-15'', category = ''A'', productName = ''X'',
         quantity = Fin 0, amount = Fin 100, timestamp = Some 1705276800000\<rparr>,
        \<lparr>rec_id = ExcelId 7 2, date = ''2024-01-16'', category = ''B'', productName = ''Y'',
         quantity = Fin 0, amount = Fin 0, timestamp = Some 1705363200000\<rparr>]"
  have ne: "?rows \<noteq> []" by simp
  have h: "has_columns (hd ?rows)" by code_simp
  have p: "parse_row_date (plain_engine 0) (?rows ! 0) = Inr (''2024-01-15'', 1705276800000)"
    "parse_row_date (plain_engine 0) (?rows ! 1) = Inr (''not-a-date'', 0)"
    "parse_row_date (plain_engine 0) (?rows ! 2) = Inr (''2024-01-16'', 1705363200000)"
    by code_simp+
  have nt: "\<forall>k<length ?rows. \<exists>ds t. parse_row_date (plain_engine 0) (?rows ! k) = Inr (ds, t)"
  proof (intro allI impI)
    fix k assume "k < length ?rows"
    then consider "k = 0" | "k = 1" | "k = 2" by fastforce
    then show "\<exists>ds t. parse_row_date (plain_engine 0) (?rows ! k) = Inr (ds, t)"
      using p by cases blast+
  qed
  have c: "concat (map (\<lambda>k. case parse_row_date (plain_engine 0) (?rows ! k) of
                                  Inl e \<Rightarrow> []
                                | Inr (ds, t) \<Rightarrow>
                                    if 0 < t then
                                      [\<lparr>rec_id = ExcelId 7 k, date = ds,
                                        category = String_of (plain_engine 0) (map_of (?rows ! k) col_category),
                                        productName = String_of (plain_engine 0) (map_of (?rows ! k) col_product),
                                        quantity = coerced (Number_of (plain_engine 0) (map_of (?rows ! k) col_quantity)),
                                        amount = coerced (Number_of (plain_engine 0) (map_of (?rows ! k) col_amount)),
                                        timestamp = Some t\<rparr>]
                                    else [])
                       [0..<length ?rows]) = ?recs"
    by code_simp
  have d: "Date_parse (plain_engine 0) ''not-a-date'' = None" by code_simp
  have m: "map_of [(col_date, CStr ''not-a-date'')] col_date = Some (CStr ''not-a-date'')" by simp
  note c6 = c6_coercion_and_drop[where rows = ?rows and eng = "plain_engine 0"
      and clock = "\<lambda>i. 7" and r = "[(col_date, CStr ''not-a-date'')]" and s = "''not-a-date''"]
  have m2: "map_of [(col_date, CNum 45307)] col_date = Some (CNum (of_int 45307))" by simp
  have b2: "\<bar>45307 - 25569 :: int\<bar> \<le> 100000000" by simp
  have i2: "split0 (CHR ''T'') (toISOString ((45307 - 25569) * 86400000)) = ''2024-01-16''"
    by code_simp
  from c6_coercion_and_drop[where eng = "plain_engine 0" and r = "[(col_date, CNum 45307)]"
      and n = 45307] m2 b2
  have "parse_row_date (plain_engine 0) [(col_date, CNum 45307)]
          = Inr (split0 (CHR ''T'') (toISOString ((45307 - 25569) * 86400000)),
                 (45307 - 25569) * 86400000)" by blast
  then have w: "parse_row_date (plain_engine 0) [(col_date, CNum 45307)]
          = Inr (''2024-01-16'', 1705363200000)" unfolding i2 by simp
  from c6 ne h nt have s: "survivors (reader_onload (plain_engine 0) (\<lambda>i. 7) True (Inr ?rows)) = ?recs"
    unfolding c by blast
  from c6 ne h nt have "errorMsg (reader_onload (plain_engine 0) (\<lambda>i. 7) True (Inr ?rows))
            = (if survivors (reader_onload (plain_engine 0) (\<lambda>i. 7) True (Inr ?rows)) = []
               then Some NoValidData else None)" by blast
  then have e: "errorMsg (reader_onload (plain_engine 0) (\<lambda>i. 7) True (Inr ?rows)) = None"
    unfolding s by simp
  from c6 m d have u: "parse_row_date (plain_engine 0) [(col_date, CStr ''not-a-date'')]
      = Inr (''not-a-date'', 0)" by blast
  show ?thesis using s e u w by simp
qed

text \<open>
  The claim as it stands fails for a row dated 1970-01-01 whose quantity is a word (the
  row is dropped), for a first row with a blank quantity cell (the batch is rejected as
  lacking the column), and for a row with a valid date next to a row whose numeric date
  lies outside the range of dates (the whole batch is rejected).
\<close>

theorem c6_counterexample:
  "reader_onload (plain_engine 0) (\<lambda>i. 7) True
       (Inr [[(col_date, CStr ''1970-01-01''), (col_category, CStr ''A''),
              (col_product, CStr ''X''), (col_quantity, CStr ''two''), (col_amount, CNum 100)]])
     = \<lparr>errorMsg = Some NoValidData, imported = None\<rparr>
   \<and> reader_onload (plain_engine 0) (\<lambda>i. 7) True
       (Inr [[(col_date, CStr ''2024-01-15''), (col_category, CStr ''A''),
              (col_product, CStr ''X''), (col_amount, CNum 100)]])
     = \<lparr>errorMsg = Some (MissingColumns [col_quantity]), imported = None\<rparr>
   \<and> reader_onload (plain_engine 0) (\<lambda>i. 7) True
       (Inr [[(col_date, CStr ''2024-01-15''), (col_category, CStr ''A''),
              (col_product, CStr ''X''), (col_quantity, CStr ''two''), (col_amount, CNum 100)],
             sample_row (CNum 1705276800000)])
     = \<lparr>errorMsg = Some CannotParse, imported = None\<rparr>"
  by code_simp

subsection \<open>C7: the normalised date and its round trip\<close>

text \<open>
  C7, as amended. The date of every record that survives an import is the date part of
  \<^verbatim>\<open>toISOString\<close> of its timestamp, which is above 0. The text has the shape
  \<^verbatim>\<open>YYYY-MM-DD\<close> when the timestamp lies before the year 10000, and the shape
  \<^verbatim>\<open>+YYYYYY-MM-DD\<close> from then on. Read again as a date cell, the text gives the same
  text, with the timestamp of that day's UTC midnight. Imported again in a row that holds
  all five columns, it survives, with the same date, exactly when the record's timestamp
  is at least one day, that is when its date is after 1970-01-01.
\<close>

theorem c7_import_date_roundtrip:
  assumes "imported (handleFileUpload eng clock l x file shown) = Some recs" and "rec \<in> set recs"
  shows "\<exists>t. timestamp rec = Some t \<and> 0 < t
           \<and> date rec = split0 (CHR ''T'') (toISOString t)
           \<and> (t < 253402300800000 \<longrightarrow> is_civil_date (date rec))
           \<and> (253402300800000 \<le> t \<longrightarrow> is_expanded_date (date rec))
           \<and> (\<forall>r. map_of r col_date = Some (CStr (date rec))
                 \<longrightarrow> parse_row_date eng r = Inr (date rec, t - TimeWithinDay t)
                     \<and> (has_columns r \<longrightarrow>
                          (\<forall>clock'.
                             map (\<lambda>x. (date x, timestamp x))
                               (survivors (reader_onload eng clock' True (Inr [r])))
                             = (if 86400000 \<le> t then [(date rec, Some (t - TimeWithinDay t))]
                                else []))))"
proof -
  from survivor_date[OF assms] obtain t where
    t: "timestamp rec = Some t" "0 < t" "t \<le> 8640000000000000" and d: "date rec = iso_date t"
    by blast
  have a: "\<bar>t\<bar> \<le> 8640000000000000" using t by simp
  have m: "Day t * msPerDay = t - TimeWithinDay t"
    by (simp add: Day_def TimeWithinDay_def algebra_simps minus_mod_eq_mult_div)
  have re: "\<forall>r. map_of r col_date = Some (CStr (date rec))
          \<longrightarrow> parse_row_date eng r = Inr (date rec, t - TimeWithinDay t)"
    using reparse_iso_date[OF a] d m by simp
  have "\<forall>r. map_of r col_date = Some (CStr (date rec))
          \<longrightarrow> parse_row_date eng r = Inr (date rec, t - TimeWithinDay t)
              \<and> (has_columns r \<longrightarrow>
                   (\<forall>clock'.
                      map (\<lambda>x. (date x, timestamp x))
                        (survivors (reader_onload eng clock' True (Inr [r])))
                      = (if 86400000 \<le> t then [(date rec, Some (t - TimeWithinDay t))]
                         else [])))"
  proof (intro allI impI conjI)
    fix r assume c: "map_of r col_date = Some (CStr (date rec))"
    then show p: "parse_row_date eng r = Inr (date rec, t - TimeWithinDay t)" using re by simp
    fix clock' assume h: "has_columns r"
    show "map (\<lambda>x. (date x, timestamp x)) (survivors (reader_onload eng clock' True (Inr [r])))
            = (if 86400000 \<le> t then [(date rec, Some (t - TimeWithinDay t))] else [])"
      using import_single_row[OF h p, of clock'] midnight_positive[of t] by simp
  qed
  moreover have "t < 253402300800000 \<longrightarrow> is_civil_date (date rec)"
    using year_of_modern_time[of t] t d by (auto intro: is_civil_date_iso_date)
  moreover have "253402300800000 \<le> t \<longrightarrow> is_expanded_date (date rec)"
    using year_of_late_time[of t] d by (auto intro: is_expanded_date_iso_date)
  ultimately show ?thesis using t d by (auto simp: iso_date_def)
qed

text \<open>
  The serial days 45306.5 (noon of 2024-01-15) and 25569.5 (noon of 1970-01-01): both
  survive; imported again, the date of the first survives and the date of the second does
  not.
\<close>

theorem c7_witness:
  "imported (handleFileUpload (plain_engine 0) (\<lambda>i. 7) True True
               (Some (Inr [sample_row (CNum (90613 / 2)), sample_row (CNum (51139 / 2))])) None)
     = Some [sample_record (ExcelId 7 0) ''2024-01-15'' (Some 1705320000000),
             sample_record (ExcelId 7 1) ''1970-01-01'' (Some 43200000)]
   \<and> is_civil_date ''2024-01-15''
   \<and> parse_row_date (plain_engine 0) (sample_row (CStr ''2024-01-15''))
       = Inr (''2024-01-15'', 1705276800000)
   \<and> map (\<lambda>x. (date x, timestamp x))
       (survivors (reader_onload (plain_engine 0) (\<lambda>i. 8) True
                     (Inr [sample_row (CStr ''2024-01-15'')])))
       = [(''2024-01-15'', Some 1705276800000)]
   \<and> parse_row_date (plain_engine 0) (sample_row (CStr ''1970-01-01'')) = Inr (''1970-01-01'', 0)
   \<and> survivors (reader_onload (plain_engine 0) (\<lambda>i. 8) True
                  (Inr [sample_row (CStr ''1970-01-01'')])) = []"
proof -
  let ?a = "sample_record (ExcelId 7 0) ''2024-01-15'' (Some 1705320000000)"
  let ?b = "sample_record (ExcelId 7 1) ''1970-01-01'' (Some 43200000)"
  let ?ra = "sample_row (CStr ''2024-01-15'')"
  let ?rb = "sample_row (CStr ''1970-01-01'')"
  have imp: "imported (handleFileUpload (plain_engine 0) (\<lambda>i. 7) True True
               (Some (Inr [sample_row (CNum (90613 / 2)), sample_row (CNum (51139 / 2))])) None)
               = Some [?a, ?b]"
    by code_simp
  have mem: "?a \<in> set [?a, ?b]" "?b \<in> set [?a, ?b]" by simp_all
  have f: "date ?a = ''2024-01-15''" "timestamp ?a = Some 1705320000000"
    "date ?b = ''1970-01-01''" "timestamp ?b = Some 43200000"
    by (simp_all add: sample_record_def)
  have w: "(1705320000000::int) - TimeWithinDay 1705320000000 = 1705276800000"
    "(43200000::int) - TimeWithinDay 43200000 = 0"
    by (simp_all add: TimeWithinDay_def msPerDay_def)
  have c: "map_of ?ra col_date = Some (CStr ''2024-01-15'')"
    "map_of ?rb col_date = Some (CStr ''1970-01-01'')"
    by (simp_all add: sample_row_def)
  have h: "has_columns ?ra" "has_columns ?rb" by code_simp+
  from c7_import_date_roundtrip[OF imp mem(1)] f(1,2) w(1)
  have a: "is_civil_date ''2024-01-15''"
    "\<forall>r. map_of r col_date = Some (CStr ''2024-01-15'')
       \<longrightarrow> parse_row_date (plain_engine 0) r = Inr (''2024-01-15'', 1705276800000)
           \<and> (has_columns r \<longrightarrow>
                (\<forall>clock'. map (\<lambda>x. (date x, timestamp x))
                            (survivors (reader_onload (plain_engine 0) clock' True (Inr [r])))
                          = [(''2024-01-15'', Some 1705276800000)]))"
    by auto
  from c7_import_date_roundtrip[OF imp mem(2)] f(3,4) w(2)
  have b: "\<forall>r. map_of r col_date = Some (CStr ''1970-01-01'')
       \<longrightarrow> parse_row_date (plain_engine 0) r = Inr (''1970-01-01'', 0)
           \<and> (has_columns r \<longrightarrow>
                (\<forall>clock'. map (\<lambda>x. (date x, timestamp x))
                            (survivors (reader_onload (plain_engine 0) clock' True (Inr [r])))
                          = []))"
    by auto
  from a(2) c(1) h(1) have a2: "parse_row_date (plain_engine 0) ?ra = Inr (''2024-01-15'', 1705276800000)"
    "map (\<lambda>x. (date x, timestamp x))
       (survivors (reader_onload (plain_engine 0) (\<lambda>i. 8) True (Inr [?ra])))
       = [(''2024-01-15'', Some 1705276800000)]"
    by blast+
  from b c(2) h(2) have b2: "parse_row_date (plain_engine 0) ?rb = Inr (''1970-01-01'', 0)"
    "map (\<lambda>x. (date x, timestamp x))
       (survivors (reader_onload (plain_engine 0) (\<lambda>i. 8) True (Inr [?rb]))) = []"
    by blast+
  from b2(2) have b3: "survivors (reader_onload (plain_engine 0) (\<lambda>i. 8) True (Inr [?rb])) = []"
    by simp
  show ?thesis using imp a(1) a2 b2(1) b3 by simp
qed

text \<open>
  The claim as it stands fails from the year 10000 on: the serial day 2958466 and the
  text \<open>+010000-01-01\<close> both survive with a date of thirteen characters.
\<close>

theorem c7_counterexample:
  "map (\<lambda>rec. (date rec, timestamp rec, is_civil_date (date rec)))
     (survivors (handleFileUpload (plain_engine 0) (\<lambda>i. 7) True True
                   (Some (Inr [sample_row (CNum 2958466), sample_row (CStr ''+010000-01-01'')]))
                   None))
   = [(''+010000-01-01'', Some 253402300800000, False),
      (''+010000-01-01'', Some 253402300800000, False)]"
  by code_simp

subsection \<open>C8: loading from the remote endpoint\<close>

text \<open>
  C8, as amended. Only an answer whose status is \<open>success\<close> replaces the record set,
  by its payload. Any other answer and any failure leave the record set as it was. A
  failure (the request, the JSON body, or a \<^verbatim>\<open>null\<close> body) adds one entry to the
  console; another status adds none. Loading always ends, and no exception escapes:
  \<open>fetchData\<close> returns a state in every case.
\<close>

theorem c8_fetch_outcomes:
  "data (fetchData r st)
     = (case r of
          Json status payload \<Rightarrow> if status = Some ''success'' then payload else data st
        | _ \<Rightarrow> data st)
   \<and> console (fetchData r st)
     = console st @ (case r of
          Rejected \<Rightarrow> [FetchFailed NetworkError]
        | NotJson \<Rightarrow> [FetchFailed SyntaxError]
        | JsonNull \<Rightarrow> [FetchFailed TypeError]
        | Json status payload \<Rightarrow> [])
   \<and> isLoading (fetchData r st) = False
   \<and> storage (fetchData r st) = storage st"
  by (cases r) (simp_all add: fetchData_def GOOGLE_SCRIPT_URL_def)

text \<open>
  The claim as it stands fails on a refresh: after the status \<open>error\<close> the record
  set still holds its record and the console is empty; after a failed request the record
  set still holds its record.
\<close>

theorem c8_counterexample:
  "data (fetchData (Json (Some ''error'') [])
           \<lparr>data = [sample_record (Uuid ''a'') ''2024-01-15'' (Some 1705276800000)],
            isLoading = False, console = [], storage = Absent\<rparr>)
     = [sample_record (Uuid ''a'') ''2024-01-15'' (Some 1705276800000)]
   \<and> console (fetchData (Json (Some ''error'') [])
           \<lparr>data = [sample_record (Uuid ''a'') ''2024-01-15'' (Some 1705276800000)],
            isLoading = False, console = [], storage = Absent\<rparr>) = []
   \<and> data (fetchData Rejected
           \<lparr>data = [sample_record (Uuid ''a'') ''2024-01-15'' (Some 1705276800000)],
            isLoading = False, console = [], storage = Absent\<rparr>)
     = [sample_record (Uuid ''a'') ''2024-01-15'' (Some 1705276800000)]"
  by (simp add: fetchData_def GOOGLE_SCRIPT_URL_def)

subsection \<open>C9: timestamp and date of a new record\<close>

text \<open>
  C9, as amended. A record built from the entry form has the timestamp that its date
  parses to (both NaN when the date does not parse). A record that survives an import has
  a timestamp \<open>t\<close> above 0 whose date parses to the UTC midnight at or before \<open>t\<close>,
  that is to \<open>t\<close> less the time within its day; the two are equal exactly when the
  imported instant is a UTC midnight.
\<close>

theorem c9_timestamp_of_date:
  "timestamp (handleSaveData_entry eng uuid newData)
     = Date_parse eng (date (handleSaveData_entry eng uuid newData))
   \<and> (\<forall>recs rec. imported (handleFileUpload eng clock l x file shown) = Some recs
          \<longrightarrow> rec \<in> set recs
          \<longrightarrow> (\<exists>t. timestamp rec = Some t \<and> 0 < t
                 \<and> Date_parse eng (date rec) = Some (t - TimeWithinDay t)))"
proof (intro conjI allI impI)
  show "timestamp (handleSaveData_entry eng uuid newData)
          = Date_parse eng (date (handleSaveData_entry eng uuid newData))"
    by (simp add: handleSaveData_entry_def)
next
  fix recs rec
  assume a: "imported (handleFileUpload eng clock l x file shown) = Some recs" "rec \<in> set recs"
  from survivor_date[OF a] obtain t where
    t: "timestamp rec = Some t" "0 < t" "t \<le> 8640000000000000" and d: "date rec = iso_date t"
    by blast
  have r: "\<bar>t\<bar> \<le> 8640000000000000" using t by simp
  have m: "Day t * msPerDay = t - TimeWithinDay t"
    by (simp add: Day_def TimeWithinDay_def algebra_simps minus_mod_eq_mult_div)
  show "\<exists>t. timestamp rec = Some t \<and> 0 < t
          \<and> Date_parse eng (date rec) = Some (t - TimeWithinDay t)"
    using t(1,2) d Date_parse_iso_date[OF r, of eng] m by simp
qed

text \<open>An entry of the form and the import of the whole serial day 45306.\<close>

theorem c9_witness:
  "timestamp (handleSaveData_entry (plain_engine 0) ''u''
       \<lparr>in_date = ''2024-01-15'', in_category = ''A'', in_productName = ''X'',
        in_quantity = Fin 2, in_amount = Fin 100\<rparr>) = Some 1705276800000
   \<and> imported (handleFileUpload (plain_engine 0) (\<lambda>i. 7) True True
                 (Some (Inr [sample_row (CNum 45306)])) None)
       = Some [sample_record (ExcelId 7 0) ''2024-01-15'' (Some 1705276800000)]
   \<and> Date_parse (plain_engine 0) ''2024-01-15'' = Some 1705276800000"
proof -
  let ?rec = "sample_record (ExcelId 7 0) ''2024-01-15'' (Some 1705276800000)"
  let ?inp = "\<lparr>in_date = ''2024-01-15'', in_category = ''A'', in_productName = ''X'',
        in_quantity = Fin 2, in_amount = Fin 100\<rparr>"
  have imp: "imported (handleFileUpload (plain_engine 0) (\<lambda>i. 7) True True
               (Some (Inr [sample_row (CNum 45306)])) None) = Some [?rec]"
    by code_simp
  have w: "(1705276800000::int) - TimeWithinDay 1705276800000 = 1705276800000"
    by (simp add: TimeWithinDay_def msPerDay_def)
  note c9 = c9_timestamp_of_date[of "plain_engine 0" "''u''" ?inp "\<lambda>i. 7" True True
      "Some (Inr [sample_row (CNum 45306)])" None]
  from c9 imp have "\<exists>t. timestamp ?rec = Some t \<and> 0 < t
      \<and> Date_parse (plain_engine 0) (date ?rec) = Some (t - TimeWithinDay t)"
    by simp
  then have p: "Date_parse (plain_engine 0) ''2024-01-15'' = Some 1705276800000"
    using w by (auto simp: sample_record_def)
  from c9 have "timestamp (handleSaveData_entry (plain_engine 0) ''u'' ?inp)
      = Date_parse (plain_engine 0) (date (handleSaveData_entry (plain_engine 0) ''u'' ?inp))"
    by blast
  then have "timestamp (handleSaveData_entry (plain_engine 0) ''u'' ?inp) = Some 1705276800000"
    using p by (simp add: handleSaveData_entry_def)
  then show ?thesis using imp p by simp
qed

text \<open>
  The claim as it stands fails for an instant within a day: the serial day 45306.5 gives
  the timestamp of noon and a date that parses to midnight.
\<close>

theorem c9_counterexample:
  "map (\<lambda>rec. (date rec, timestamp rec, Date_parse (plain_engine 0) (date rec)))
     (survivors (handleFileUpload (plain_engine 0) (\<lambda>i. 7) True True
                   (Some (Inr [sample_row (CNum (90613 / 2))])) None))
   = [(''2024-01-15'', Some 1705320000000, Some 1705276800000)]"
  by code_simp

subsection \<open>C10: rows at or before the epoch\<close>

text \<open>
  C10. Every record that an import delivers has a timestamp above 0, and a row whose
  date yields a timestamp of 0 or less has no record among them (a record carries its
  row's index in its id). A date text that parses to \<open>t\<close> yields the timestamp \<open>t\<close>;
  1970-01-01 parses to 0 and 1969-12-31 to a negative number.
\<close>

theorem c10_nonpositive_dropped:
  assumes "imported (handleFileUpload eng clock l x (Some (Inr rows)) shown) = Some recs"
  shows "(\<forall>rec \<in> set recs. \<exists>t. timestamp rec = Some t \<and> 0 < t)
         \<and> (\<forall>k ds t. k < length rows \<longrightarrow> parse_row_date eng (rows ! k) = Inr (ds, t) \<longrightarrow> t \<le> 0
               \<longrightarrow> ExcelId (clock k) k \<notin> rec_id ` set recs)
         \<and> (\<forall>r s t. map_of r col_date = Some (CStr s) \<longrightarrow> Date_parse eng s = Some t
               \<longrightarrow> (\<exists>ds. parse_row_date eng r = Inr (ds, t)))
         \<and> Date_parse eng ''1970-01-01'' = Some 0
         \<and> Date_parse eng ''1969-12-31'' = Some (- 86400000)"
proof (intro conjI ballI allI impI)
  fix rec assume "rec \<in> set recs"
  from survivor_of_import[OF assms this] show "\<exists>t. timestamp rec = Some t \<and> 0 < t" by blast
next
  fix k ds t
  assume k: "k < length rows" and p: "parse_row_date eng (rows ! k) = Inr (ds, t)" and t: "t \<le> 0"
  show "ExcelId (clock k) k \<notin> rec_id ` set recs"
  proof
    assume "ExcelId (clock k) k \<in> rec_id ` set recs"
    then obtain rec where r: "rec \<in> set recs" and i: "rec_id rec = ExcelId (clock k) k" by auto
    from survivor_of_import[OF assms r] obtain rows' k' t' where
      e: "Some (Inr rows) = Some (Inr rows')"
      and p': "parse_row_date eng (rows' ! k') = Inr (date rec, t')"
      and pos: "0 < t'" and i': "rec_id rec = ExcelId (clock k') k'" by blast
    from i i' have "k' = k" by simp
    moreover from e have "rows' = rows" by simp
    ultimately have "parse_row_date eng (rows ! k) = Inr (date rec, t')" using p' by simp
    with p have "t = t'" by simp
    with t pos show False by simp
  qed
next
  fix r :: row and s t
  assume "map_of r col_date = Some (CStr s)" "Date_parse eng s = Some t"
  then show "\<exists>ds. parse_row_date eng r = Inr (ds, t)"
    by (simp add: parse_row_date_def new_Date_def)
next
  have "iso_date_only ''1970-01-01'' = Some 0" by code_simp
  then show "Date_parse eng ''1970-01-01'' = Some 0" by (simp add: Date_parse_def)
next
  have "iso_date_only ''1969-12-31'' = Some (- 86400000)" by code_simp
  then show "Date_parse eng ''1969-12-31'' = Some (- 86400000)" by (simp add: Date_parse_def)
qed

text \<open>A row dated 1970-01-01 before a row dated 2024-01-15: only the second survives.\<close>

theorem c10_witness:
  "imported (handleFileUpload (plain_engine 0) (\<lambda>i. 7) True True
       (Some (Inr [sample_row (CStr ''1970-01-01''), sample_row (CStr ''2024-01-15'')])) None)
     = Some [sample_record (ExcelId 7 1) ''2024-01-15'' (Some 1705276800000)]
   \<and> parse_row_date (plain_engine 0) (sample_row (CStr ''1970-01-01'')) = Inr (''1970-01-01'', 0)
   \<and> ExcelId 7 0 \<notin> rec_id ` set [sample_record (ExcelId 7 1) ''2024-01-15'' (Some 1705276800000)]
   \<and> Date_parse (plain_engine 0) ''1970-01-01'' = Some 0"
proof -
  let ?rows = "[sample_row (CStr ''1970-01-01''), sample_row (CStr ''2024-01-15'')]"
  let ?recs = "[sample_record (ExcelId 7 1) ''2024-01-15'' (Some 1705276800000)]"
  have imp: "imported (handleFileUpload (plain_engine 0) (\<lambda>i. 7) True True (Some (Inr ?rows)) None)
               = Some ?recs"
    by code_simp
  have p: "parse_row_date (plain_engine 0) (sample_row (CStr ''1970-01-01''))
             = Inr (''1970-01-01'', 0)"
    by code_simp
  note c10 = c10_nonpositive_dropped[OF imp]
  from c10 have "\<forall>k ds t. k < length ?rows \<longrightarrow> parse_row_date (plain_engine 0) (?rows ! k) = Inr (ds, t)
                   \<longrightarrow> t \<le> 0 \<longrightarrow> ExcelId 7 k \<notin> rec_id ` set ?recs" by blast
  from this[rule_format, of 0 "''1970-01-01''" 0] p
  have "ExcelId 7 0 \<notin> rec_id ` set ?recs" by simp
  moreover from c10 have "Date_parse (plain_engine 0) ''1970-01-01'' = Some 0" by blast
  ultimately show ?thesis using imp p by simp
qed

end
